theory Spec2Isabelle
  imports Main "HOL-Library.AList" "HOL-Library.Sublist" "HOL-Library.Product_Lexorder"
begin

section \<open>Permission overwrites\<close>

text \<open>
  The keys of a channel's overwrite dictionary are the objects the client library hands
  out: a member, a role (the server's default role @everyone is a role whose id is the
  server's id), or a bare object when the library could resolve neither. Two keys are
  equal when they are of the same kind and carry the same id.
\<close>

datatype target = Member nat | Role nat | Object nat

text \<open>
  A permission overwrite holds tri-state flags: \<open>Some True\<close> allows, \<open>Some False\<close>
  denies, \<open>None\<close> inherits. Only the four flags the program ever sets are modelled; a
  flag that the constructor call does not mention is \<open>None\<close>.
\<close>

record PermissionOverwrite =
  view_channel :: "bool option"
  send_messages :: "bool option"
  read_message_history :: "bool option"
  manage_messages :: "bool option"

record role =
  role_id :: nat
  role_name :: string

text \<open>
  A Python dictionary keeps its keys in insertion order and \<open>d[k] = v\<close> replaces the
  value of a key in place or appends a new key: this is \<open>AList.update k v d\<close> on the
  list of items.
\<close>

type_synonym overwrites = "(target \<times> PermissionOverwrite) list"

section \<open>The archive transition of the archive command\<close>

text \<open>
  Lines 301 to 315 of \<open>archive_channel\<close>: the overwrite stored in \<open>cleaned\<close> for one
  target of the loop. \<open>editors_role\<close> is the result of looking the role up by its
  configured name, \<open>None\<close> when the server has no such role.
\<close>

fun archive_entry :: "role option \<Rightarrow> target \<Rightarrow> PermissionOverwrite" where
  "archive_entry editors_role (Member uid) =
     \<lparr>view_channel = Some True, send_messages = Some False,
      read_message_history = Some True, manage_messages = None\<rparr>"
| "archive_entry editors_role (Role rid) =
     (if (case editors_role of None \<Rightarrow> False | Some e \<Rightarrow> rid = role_id e)
      then \<lparr>view_channel = Some True, send_messages = Some True,
            read_message_history = Some True, manage_messages = None\<rparr>
      else \<lparr>view_channel = Some True, send_messages = Some False,
            read_message_history = Some True, manage_messages = None\<rparr>)"
| "archive_entry editors_role (Object oid) =
     \<lparr>view_channel = Some True, send_messages = Some False,
      read_message_history = None, manage_messages = None\<rparr>"

text \<open>Lines 299 to 315: the loop over the items of \<open>overwrites\<close>, filling \<open>cleaned\<close>.\<close>

fun archive_clean :: "role option \<Rightarrow> overwrites \<Rightarrow> overwrites \<Rightarrow> overwrites" where
  "archive_clean editors_role [] cleaned = cleaned"
| "archive_clean editors_role ((target, perms) # items) cleaned =
     archive_clean editors_role items
       (AList.update target (archive_entry editors_role target) cleaned)"

text \<open>
  Lines 291 to 315: the default role's entry is overwritten first, then the loop runs
  from an empty \<open>cleaned\<close>. \<open>default_role\<close> is the id of the server's default role.
\<close>

definition archive_overwrites :: "role option \<Rightarrow> nat \<Rightarrow> overwrites \<Rightarrow> overwrites" where
  "archive_overwrites editors_role default_role overwrites =
     archive_clean editors_role
       (AList.update (Role default_role)
          \<lparr>view_channel = Some True, send_messages = Some False,
           read_message_history = Some True, manage_messages = None\<rparr> overwrites)
       []"

section \<open>The archive transition of the sweeper\<close>

text \<open>Lines 354 to 368 of \<open>sweeper\<close>: the same loop body, written a second time.\<close>

fun sweeper_entry :: "role option \<Rightarrow> target \<Rightarrow> PermissionOverwrite" where
  "sweeper_entry editors_role (Member uid) =
     \<lparr>view_channel = Some True, send_messages = Some False,
      read_message_history = Some True, manage_messages = None\<rparr>"
| "sweeper_entry editors_role (Role rid) =
     (if (case editors_role of None \<Rightarrow> False | Some e \<Rightarrow> rid = role_id e)
      then \<lparr>view_channel = Some True, send_messages = Some True,
            read_message_history = Some True, manage_messages = None\<rparr>
      else \<lparr>view_channel = Some True, send_messages = Some False,
            read_message_history = Some True, manage_messages = None\<rparr>)"
| "sweeper_entry editors_role (Object oid) =
     \<lparr>view_channel = Some True, send_messages = Some False,
      read_message_history = None, manage_messages = None\<rparr>"

fun sweeper_clean :: "role option \<Rightarrow> overwrites \<Rightarrow> overwrites \<Rightarrow> overwrites" where
  "sweeper_clean editors_role [] cleaned = cleaned"
| "sweeper_clean editors_role ((target, perms) # items) cleaned =
     sweeper_clean editors_role items
       (AList.update target (sweeper_entry editors_role target) cleaned)"

definition sweeper_overwrites :: "role option \<Rightarrow> nat \<Rightarrow> overwrites \<Rightarrow> overwrites" where
  "sweeper_overwrites editors_role default_role overwrites =
     sweeper_clean editors_role
       (AList.update (Role default_role)
          \<lparr>view_channel = Some True, send_messages = Some False,
           read_message_history = Some True, manage_messages = None\<rparr> overwrites)
       []"

section \<open>Channels\<close>

text \<open>
  What the program reads and writes of a channel: its name, its topic (the free-text
  metadata field, which may be absent), the id of the category it sits in, its overwrite
  dictionary, and whether it is a text channel.
\<close>

record channel =
  ch_id :: nat
  ch_name :: string
  ch_is_text :: bool
  ch_topic :: "string option"
  ch_category :: "nat option"
  ch_overwrites :: overwrites

text \<open>
  The two edits of \<open>archive_channel\<close> when the platform accepts both: line 287 moves
  the channel to the archived category, line 317 replaces its overwrites by \<open>cleaned\<close>.
\<close>

definition archive_edits :: "nat \<Rightarrow> role option \<Rightarrow> nat \<Rightarrow> channel \<Rightarrow> channel" where
  "archive_edits archived_cat editors_role default_role ch =
     (ch\<lparr>ch_category := Some archived_cat\<rparr>)
       \<lparr>ch_overwrites := archive_overwrites editors_role default_role (ch_overwrites ch)\<rparr>"

section \<open>Strings\<close>

text \<open>
  Python strings are modelled as lists of ASCII characters. The operations below are the
  ones of \<open>str\<close> that the program calls, restricted to ASCII: \<open>isalnum\<close>, \<open>isdigit\<close>
  and \<open>lower\<close> know the ASCII letters and digits only, \<open>isspace\<close> the ASCII white space.
\<close>

definition isdigit :: "char \<Rightarrow> bool" where
  "isdigit c = (48 \<le> (of_char c :: nat) \<and> (of_char c :: nat) \<le> 57)"

definition isupper :: "char \<Rightarrow> bool" where
  "isupper c = (c \<in> set ''ABCDEFGHIJKLMNOPQRSTUVWXYZ'')"

definition islower :: "char \<Rightarrow> bool" where
  "islower c = (c \<in> set ''abcdefghijklmnopqrstuvwxyz'')"

definition isalnum :: "char \<Rightarrow> bool" where
  "isalnum c = (isdigit c \<or> isupper c \<or> islower c)"

definition isspace :: "char \<Rightarrow> bool" where
  "isspace c = ((9 \<le> (of_char c :: nat) \<and> (of_char c :: nat) \<le> 13)
              \<or> (28 \<le> (of_char c :: nat) \<and> (of_char c :: nat) \<le> 32))"

definition lower :: "char \<Rightarrow> char" where
  "lower c =
     (case map_of (zip ''ABCDEFGHIJKLMNOPQRSTUVWXYZ'' ''abcdefghijklmnopqrstuvwxyz'') c of
        Some l \<Rightarrow> l
      | None \<Rightarrow> c)"

text \<open>\<open>s.strip(chars)\<close> and \<open>s.strip()\<close>: drop the characters at both ends.\<close>

definition strip_chars :: "string \<Rightarrow> string \<Rightarrow> string" where
  "strip_chars chars s =
     rev (dropWhile (\<lambda>c. c \<in> set chars) (rev (dropWhile (\<lambda>c. c \<in> set chars) s)))"

definition strip :: "string \<Rightarrow> string" where
  "strip s = rev (dropWhile isspace (rev (dropWhile isspace s)))"

text \<open>
  \<open>find_from sub s\<close> is the index of the first occurrence of \<open>sub\<close> in \<open>s\<close>.
  \<open>str_find s sub start\<close> is \<open>s.find(sub, start)\<close>, with \<open>None\<close> for -1;
  \<open>s.index(sub, start)\<close> is the same search and raises ValueError where \<open>find\<close>
  returns -1, so \<open>None\<close> stands for the exception there. \<open>str_in sub s\<close> is
  \<open>sub in s\<close>.
\<close>

fun find_from :: "string \<Rightarrow> string \<Rightarrow> nat option" where
  "find_from sub [] = (if sub = [] then Some 0 else None)"
| "find_from sub (c # cs) =
     (if prefix sub (c # cs) then Some 0 else map_option Suc (find_from sub cs))"

definition str_find :: "string \<Rightarrow> string \<Rightarrow> nat \<Rightarrow> nat option" where
  "str_find s sub start =
     (if length s < start then None
      else map_option (\<lambda>i. start + i) (find_from sub (drop start s)))"

definition str_in :: "string \<Rightarrow> string \<Rightarrow> bool" where
  "str_in sub s = (find_from sub s \<noteq> None)"

text \<open>\<open>s.split()\<close>: the maximal runs of characters that are not white space.\<close>

fun split_ws :: "string \<Rightarrow> string \<Rightarrow> string list" where
  "split_ws word [] = (if word = [] then [] else [word])"
| "split_ws word (c # cs) =
     (if isspace c then (if word = [] then split_ws [] cs else word # split_ws [] cs)
      else split_ws (word @ [c]) cs)"

definition split :: "string \<Rightarrow> string list" where
  "split s = split_ws [] s"

section \<open>slugify\<close>

text \<open>\<open>s.replace("--", "-")\<close>: every occurrence, left to right, without overlap.\<close>

fun replace_dashes :: "string \<Rightarrow> string" where
  "replace_dashes (a # b # s) =
     (if a = CHR ''-'' \<and> b = CHR ''-'' then CHR ''-'' # replace_dashes s
      else a # replace_dashes (b # s))"
| "replace_dashes s = s"

lemma replace_dashes_length: "length (replace_dashes s) \<le> length s"
  by (induction s rule: replace_dashes.induct) auto

lemma replace_dashes_shorter:
  "find_from ''--'' s \<noteq> None \<Longrightarrow> length (replace_dashes s) < length s"
proof (induction s rule: replace_dashes.induct)
  case (1 a b s)
  show ?case
  proof (cases "a = CHR ''-'' \<and> b = CHR ''-''")
    case True
    have "length (replace_dashes s) \<le> length s" by (rule replace_dashes_length)
    with True show ?thesis by simp
  next
    case False
    with 1(3) have "find_from ''--'' (b # s) \<noteq> None" by (auto split: if_splits)
    with 1(2) False show ?thesis by auto
  qed
qed simp_all

text \<open>Lines 60 and 61: the loop that runs while "--" occurs in \<open>s\<close>.\<close>

function collapse_dashes :: "string \<Rightarrow> string" where
  "collapse_dashes s =
     (if str_in ''--'' s then collapse_dashes (replace_dashes s) else s)"
  by pat_completeness auto
termination
  by (relation "measure length") (simp_all add: str_in_def replace_dashes_shorter)

declare collapse_dashes.simps [simp del]

definition slugify :: "string \<Rightarrow> string" where
  "slugify title =
     (let s = strip_chars ''-''
                (concat (map (\<lambda>ch. if isalnum ch then [lower ch] else ''-'') title));
          s = collapse_dashes s
      in if s \<noteq> [] then take 90 s else ''article'')"

section \<open>Dates and times\<close>

text \<open>
  A \<open>datetime\<close> of the standard library: the calendar fields and, for an aware value, the
  offset from UTC in microseconds (\<open>None\<close> for a naive value, which is what
  \<open>datetime.now()\<close> and \<open>datetime.strptime\<close> without a zone directive return). The
  constructor refuses fields out of range with ValueError; \<open>make_datetime\<close> returns
  \<open>None\<close> there.
\<close>

record datetime =
  year :: nat
  month :: nat
  day :: nat
  hour :: nat
  minute :: nat
  second :: nat
  microsecond :: nat
  tzinfo :: "int option"

datatype py_error = ValueError | TypeError | NotFound | Forbidden

definition is_leap :: "nat \<Rightarrow> bool" where
  "is_leap y = (y mod 4 = 0 \<and> (y mod 100 \<noteq> 0 \<or> y mod 400 = 0))"

definition days_in_month :: "nat \<Rightarrow> nat \<Rightarrow> nat" where
  "days_in_month y m =
     (if m = 2 then (if is_leap y then 29 else 28)
      else if m = 4 \<or> m = 6 \<or> m = 9 \<or> m = 11 then 30 else 31)"

definition valid_datetime :: "datetime \<Rightarrow> bool" where
  "valid_datetime dt =
     (1 \<le> year dt \<and> year dt \<le> 9999 \<and> 1 \<le> month dt \<and> month dt \<le> 12
      \<and> 1 \<le> day dt \<and> day dt \<le> days_in_month (year dt) (month dt)
      \<and> hour dt < 24 \<and> minute dt < 60 \<and> second dt < 60 \<and> microsecond dt < 1000000
      \<and> (case tzinfo dt of None \<Rightarrow> True
          | Some off \<Rightarrow> - 86400000000 < off \<and> off < 86400000000))"

definition make_datetime ::
  "nat \<Rightarrow> nat \<Rightarrow> nat \<Rightarrow> nat \<Rightarrow> nat \<Rightarrow> nat \<Rightarrow> nat \<Rightarrow> int option \<Rightarrow> datetime option" where
  "make_datetime y mo d h mi sec us tz =
     (let dt = \<lparr>year = y, month = mo, day = d, hour = h, minute = mi, second = sec,
                microsecond = us, tzinfo = tz\<rparr>
      in if valid_datetime dt then Some dt else None)"

text \<open>
  Comparison: two naive values compare field by field; two aware values compare as
  instants; a naive and an aware value cannot be ordered and \<open><\<close> raises TypeError.
\<close>

definition days_before_year :: "nat \<Rightarrow> nat" where
  "days_before_year y = (y - 1) * 365 + (y - 1) div 4 - (y - 1) div 100 + (y - 1) div 400"

definition ordinal :: "datetime \<Rightarrow> nat" where
  "ordinal dt =
     days_before_year (year dt)
     + sum_list (map (days_in_month (year dt)) [1 ..< month dt]) + day dt"

definition local_micros :: "datetime \<Rightarrow> int" where
  "local_micros dt =
     int ((((ordinal dt * 24 + hour dt) * 60 + minute dt) * 60 + second dt) * 1000000
          + microsecond dt)"

definition datetime_lt :: "datetime \<Rightarrow> datetime \<Rightarrow> py_error + bool" where
  "datetime_lt a b =
     (case (tzinfo a, tzinfo b) of
        (None, None) \<Rightarrow>
          Inr ((year a, month a, day a, hour a, minute a, second a, microsecond a)
               < (year b, month b, day b, hour b, minute b, second b, microsecond b))
      | (Some x, Some y) \<Rightarrow> Inr (local_micros a - x < local_micros b - y)
      | _ \<Rightarrow> Inl TypeError)"

subsection \<open>Printing\<close>

text \<open>\<open>str(n)\<close> and the format \<open>%0wd\<close> for a natural number.\<close>

definition digit_char :: "nat \<Rightarrow> char" where
  "digit_char d = ''0123456789'' ! d"

fun str_nat :: "nat \<Rightarrow> string" where
  "str_nat n = (if n < 10 then [digit_char n] else str_nat (n div 10) @ [digit_char (n mod 10)])"

definition fmt_0d :: "nat \<Rightarrow> nat \<Rightarrow> string" where
  "fmt_0d w n = replicate (w - length (str_nat n)) (CHR ''0'') @ str_nat n"

definition format_offset :: "int \<Rightarrow> string" where
  "format_offset off =
     (let a = nat \<bar>off\<bar>;
          hh = a div 3600000000; mm = (a div 60000000) mod 60;
          ss = (a div 1000000) mod 60; us = a mod 1000000
      in (if off < 0 then ''-'' else ''+'') @ fmt_0d 2 hh @ '':'' @ fmt_0d 2 mm
         @ (if ss \<noteq> 0 \<or> us \<noteq> 0
            then '':'' @ fmt_0d 2 ss @ (if us \<noteq> 0 then ''.'' @ fmt_0d 6 us else [])
            else []))"

text \<open>\<open>dt.isoformat()\<close>, with the default separator and precision.\<close>

definition isoformat :: "datetime \<Rightarrow> string" where
  "isoformat dt =
     fmt_0d 4 (year dt) @ ''-'' @ fmt_0d 2 (month dt) @ ''-'' @ fmt_0d 2 (day dt) @ ''T''
     @ fmt_0d 2 (hour dt) @ '':'' @ fmt_0d 2 (minute dt) @ '':'' @ fmt_0d 2 (second dt)
     @ (if microsecond dt \<noteq> 0 then ''.'' @ fmt_0d 6 (microsecond dt) else [])
     @ (case tzinfo dt of None \<Rightarrow> [] | Some off \<Rightarrow> format_offset off)"

subsection \<open>Parsing ISO strings\<close>

text \<open>
  \<open>datetime.fromisoformat\<close>, for the grammar the library documents for it,
  \<open>YYYY-MM-DD[*HH[:MM[:SS[.fff[fff]]]][+HH:MM[:SS[.ffffff]]]]\<close>, where \<open>*\<close> is any one
  character: the strings \<open>isoformat\<close> prints and their shorter forms. A string outside
  the grammar, or one whose fields are out of range, raises ValueError: \<open>None\<close> here.
  (Later versions of the library read further ISO 8601 forms as well.)
\<close>

definition parse_digits :: "string \<Rightarrow> nat option" where
  "parse_digits s =
     (if s \<noteq> [] \<and> list_all isdigit s
      then Some (foldl (\<lambda>n c. 10 * n + ((of_char c :: nat) - 48)) 0 s) else None)"

definition parse_isoformat_date :: "string \<Rightarrow> (nat \<times> nat \<times> nat) option" where
  "parse_isoformat_date s =
     (if length s = 10 \<and> s ! 4 = CHR ''-'' \<and> s ! 7 = CHR ''-''
      then (case (parse_digits (take 4 s), parse_digits (take 2 (drop 5 s)),
                  parse_digits (drop 8 s)) of
              (Some y, Some m, Some d) \<Rightarrow> Some (y, m, d)
            | _ \<Rightarrow> None)
      else None)"

definition parse_hh_mm_ss_ff :: "string \<Rightarrow> (nat \<times> nat \<times> nat \<times> nat) option" where
  "parse_hh_mm_ss_ff s =
     (if length s = 2
      then (case parse_digits s of Some h \<Rightarrow> Some (h, 0, 0, 0) | None \<Rightarrow> None)
      else if length s = 5 \<and> s ! 2 = CHR '':''
      then (case (parse_digits (take 2 s), parse_digits (drop 3 s)) of
              (Some h, Some m) \<Rightarrow> Some (h, m, 0, 0)
            | _ \<Rightarrow> None)
      else if length s = 8 \<and> s ! 2 = CHR '':'' \<and> s ! 5 = CHR '':''
      then (case (parse_digits (take 2 s), parse_digits (take 2 (drop 3 s)),
                  parse_digits (drop 6 s)) of
              (Some h, Some m, Some sec) \<Rightarrow> Some (h, m, sec, 0)
            | _ \<Rightarrow> None)
      else if (length s = 12 \<or> length s = 15) \<and> s ! 2 = CHR '':'' \<and> s ! 5 = CHR '':''
              \<and> s ! 8 = CHR ''.''
      then (case (parse_digits (take 2 s), parse_digits (take 2 (drop 3 s)),
                  parse_digits (take 2 (drop 6 s)), parse_digits (drop 9 s)) of
              (Some h, Some m, Some sec, Some f) \<Rightarrow>
                Some (h, m, sec, if length s = 12 then f * 1000 else f)
            | _ \<Rightarrow> None)
      else None)"

text \<open>The zone starts at the first \<open>-\<close> of the time string, or else at its first \<open>+\<close>.\<close>

definition find_sign :: "string \<Rightarrow> nat option" where
  "find_sign tstr =
     (case find_from ''-'' tstr of Some p \<Rightarrow> Some p | None \<Rightarrow> find_from ''+'' tstr)"

definition parse_isoformat_time ::
  "string \<Rightarrow> (nat \<times> nat \<times> nat \<times> nat \<times> int option) option" where
  "parse_isoformat_time tstr =
     (case find_sign tstr of
        None \<Rightarrow>
          (case parse_hh_mm_ss_ff tstr of
             Some (h, m, sec, us) \<Rightarrow> Some (h, m, sec, us, None)
           | None \<Rightarrow> None)
      | Some p \<Rightarrow>
          (let tzstr = drop (Suc p) tstr in
           if length tzstr = 5 \<or> length tzstr = 8 \<or> length tzstr = 15
           then (case (parse_hh_mm_ss_ff (take p tstr), parse_hh_mm_ss_ff tzstr) of
                   (Some (h, m, sec, us), Some (th, tm, ts, tus)) \<Rightarrow>
                     Some (h, m, sec, us,
                       Some ((if tstr ! p = CHR ''-'' then - 1 else 1)
                             * int (((th * 60 + tm) * 60 + ts) * 1000000 + tus)))
                 | _ \<Rightarrow> None)
           else None))"

definition fromisoformat :: "string \<Rightarrow> datetime option" where
  "fromisoformat s =
     (if length s < 10 then None
      else (case parse_isoformat_date (take 10 s) of
              None \<Rightarrow> None
            | Some (y, mo, d) \<Rightarrow>
                if length s = 10 then make_datetime y mo d 0 0 0 0 None
                else (case parse_isoformat_time (drop 11 s) of
                        None \<Rightarrow> None
                      | Some (h, mi, sec, us, tz) \<Rightarrow> make_datetime y mo d h mi sec us tz)))"

section \<open>The deadline in a channel's topic\<close>

definition DEADLINE_TAG :: string where
  "DEADLINE_TAG = ''[deadline: ''"

text \<open>
  Lines 86 to 94. Both \<open>index\<close> calls and \<open>fromisoformat\<close> run inside the \<open>try\<close>, whose
  handler returns \<open>None\<close> for every exception.
\<close>

definition extract_deadline_from_topic :: "string option \<Rightarrow> datetime option" where
  "extract_deadline_from_topic topic =
     (case topic of
        None \<Rightarrow> None
      | Some t \<Rightarrow>
          if t = [] \<or> \<not> str_in DEADLINE_TAG t then None
          else (case str_find t DEADLINE_TAG 0 of
                  None \<Rightarrow> None
                | Some i \<Rightarrow>
                    (let start = i + length DEADLINE_TAG in
                     case str_find t '']'' start of
                       None \<Rightarrow> None
                     | Some end' \<Rightarrow> fromisoformat (take (end' - start) (drop start t)))))"

text \<open>Line 237 of \<open>new_article\<close>: the topic written for a title and a deadline.\<close>

definition article_topic :: "string \<Rightarrow> datetime \<Rightarrow> string" where
  "article_topic title dt = ''Article: '' @ title @ '' | '' @ DEADLINE_TAG @ isoformat dt @ '']''"

section \<open>Parsing the deadline a user types\<close>

text \<open>
  \<open>datetime.strptime\<close> turns the format into a regular expression, matches it at the
  start of the text (case-insensitively, with backtracking, the alternatives of a directive
  tried in the order the library lists them), and raises ValueError when nothing matches,
  when text remains after the match, or when the fields do not make a date. The model
  covers the directives the program uses, in the C locale: \<open>%Y\<close>, \<open>%m\<close>, \<open>%d\<close>, \<open>%H\<close>,
  \<open>%M\<close> and \<open>%b\<close>; a run of white space in the format matches one or more white-space
  characters. Each matcher returns its successes, first choice first, each with the text
  that remains.
\<close>

datatype directive = DY | Dm | Dd | DH | DM | Db | Lit char | WS

record fields =
  f_year :: "nat option"
  f_month :: nat
  f_day :: nat
  f_hour :: nat
  f_minute :: nat

definition digit_of :: "char \<Rightarrow> nat" where
  "digit_of c = (of_char c :: nat) - 48"

definition two_digits :: "(nat \<Rightarrow> bool) \<Rightarrow> (nat \<Rightarrow> bool) \<Rightarrow> string \<Rightarrow> (nat \<times> string) list" where
  "two_digits P Q s =
     (case s of
        a # b # r \<Rightarrow>
          if isdigit a \<and> isdigit b \<and> P (digit_of a) \<and> Q (digit_of b)
          then [(10 * digit_of a + digit_of b, r)] else []
      | _ \<Rightarrow> [])"

definition one_digit :: "(nat \<Rightarrow> bool) \<Rightarrow> string \<Rightarrow> (nat \<times> string) list" where
  "one_digit P s =
     (case s of
        a # r \<Rightarrow> if isdigit a \<and> P (digit_of a) then [(digit_of a, r)] else []
      | _ \<Rightarrow> [])"

text \<open>\<open>%Y\<close> is \<open>\<^verbatim>\<open>\d\d\d\d\<close>\<close>.\<close>

definition re_Y :: "string \<Rightarrow> (nat \<times> string) list" where
  "re_Y s =
     (case s of
        a # b # c # d # r \<Rightarrow>
          if isdigit a \<and> isdigit b \<and> isdigit c \<and> isdigit d
          then [(1000 * digit_of a + 100 * digit_of b + 10 * digit_of c + digit_of d, r)]
          else []
      | _ \<Rightarrow> [])"

text \<open>\<open>%m\<close> is \<open>\<^verbatim>\<open>1[0-2]|0[1-9]|[1-9]\<close>\<close>.\<close>

definition re_m :: "string \<Rightarrow> (nat \<times> string) list" where
  "re_m s =
     two_digits (\<lambda>a. a = 1) (\<lambda>b. b \<le> 2) s
     @ two_digits (\<lambda>a. a = 0) (\<lambda>b. 1 \<le> b) s
     @ one_digit (\<lambda>a. 1 \<le> a) s"

text \<open>\<open>%d\<close> is \<open>\<^verbatim>\<open>3[0-1]|[1-2]\d|0[1-9]|[1-9]| [1-9]\<close>\<close>.\<close>

definition re_d :: "string \<Rightarrow> (nat \<times> string) list" where
  "re_d s =
     two_digits (\<lambda>a. a = 3) (\<lambda>b. b \<le> 1) s
     @ two_digits (\<lambda>a. 1 \<le> a \<and> a \<le> 2) (\<lambda>b. True) s
     @ two_digits (\<lambda>a. a = 0) (\<lambda>b. 1 \<le> b) s
     @ one_digit (\<lambda>a. 1 \<le> a) s
     @ (case s of c # r \<Rightarrow> if c = CHR '' '' then one_digit (\<lambda>a. 1 \<le> a) r else []
        | _ \<Rightarrow> [])"

text \<open>\<open>%H\<close> is \<open>\<^verbatim>\<open>2[0-3]|[0-1]\d|\d\<close>\<close>, \<open>%M\<close> is \<open>\<^verbatim>\<open>[0-5]\d|\d\<close>\<close>.\<close>

definition re_H :: "string \<Rightarrow> (nat \<times> string) list" where
  "re_H s =
     two_digits (\<lambda>a. a = 2) (\<lambda>b. b \<le> 3) s
     @ two_digits (\<lambda>a. a \<le> 1) (\<lambda>b. True) s
     @ one_digit (\<lambda>a. True) s"

definition re_M :: "string \<Rightarrow> (nat \<times> string) list" where
  "re_M s = two_digits (\<lambda>a. a \<le> 5) (\<lambda>b. True) s @ one_digit (\<lambda>a. True) s"

text \<open>\<open>%b\<close> is one of the abbreviated month names; the value is its position.\<close>

definition month_abbr :: "(string \<times> nat) list" where
  "month_abbr =
     [(''jan'', 1), (''feb'', 2), (''mar'', 3), (''apr'', 4), (''may'', 5), (''jun'', 6),
      (''jul'', 7), (''aug'', 8), (''sep'', 9), (''oct'', 10), (''nov'', 11), (''dec'', 12)]"

definition re_b :: "string \<Rightarrow> (nat \<times> string) list" where
  "re_b s =
     (if length s < 3 then []
      else (case map_of month_abbr (map lower (take 3 s)) of
              Some m \<Rightarrow> [(m, drop 3 s)]
            | None \<Rightarrow> []))"

text \<open>
  \<open>\<^verbatim>\<open>\s+\<close>\<close> takes the whole run of white space first and gives characters back one at
  a time, down to one.
\<close>

definition re_ws :: "string \<Rightarrow> string list" where
  "re_ws s = map (\<lambda>k. drop k s) (rev [1 ..< Suc (length (takeWhile isspace s))])"

definition step :: "directive \<Rightarrow> string \<Rightarrow> fields \<Rightarrow> (fields \<times> string) list" where
  "step d s f =
     (case d of
        DY \<Rightarrow> map (\<lambda>(v, r). (f\<lparr>f_year := Some v\<rparr>, r)) (re_Y s)
      | Dm \<Rightarrow> map (\<lambda>(v, r). (f\<lparr>f_month := v\<rparr>, r)) (re_m s)
      | Dd \<Rightarrow> map (\<lambda>(v, r). (f\<lparr>f_day := v\<rparr>, r)) (re_d s)
      | DH \<Rightarrow> map (\<lambda>(v, r). (f\<lparr>f_hour := v\<rparr>, r)) (re_H s)
      | DM \<Rightarrow> map (\<lambda>(v, r). (f\<lparr>f_minute := v\<rparr>, r)) (re_M s)
      | Db \<Rightarrow> map (\<lambda>(v, r). (f\<lparr>f_month := v\<rparr>, r)) (re_b s)
      | Lit c \<Rightarrow> (case s of x # r \<Rightarrow> if lower x = lower c then [(f, r)] else [] | _ \<Rightarrow> [])
      | WS \<Rightarrow> map (\<lambda>r. (f, r)) (re_ws s))"

fun re_match :: "directive list \<Rightarrow> string \<Rightarrow> fields \<Rightarrow> (fields \<times> string) list" where
  "re_match [] s f = [(f, s)]"
| "re_match (d # ds) s f = concat (map (\<lambda>(f', r). re_match ds r f') (step d s f))"

text \<open>
  The format string as a list of directives; \<open>None\<close> for a directive outside the model
  (the library raises ValueError for a directive it does not know).
\<close>

definition directive_of :: "char \<Rightarrow> directive option" where
  "directive_of c =
     (if c = CHR ''Y'' then Some DY else if c = CHR ''m'' then Some Dm
      else if c = CHR ''d'' then Some Dd else if c = CHR ''H'' then Some DH
      else if c = CHR ''M'' then Some DM else if c = CHR ''b'' then Some Db else None)"

fun compile_format :: "string \<Rightarrow> directive list option" where
  "compile_format [] = Some []"
| "compile_format [c] =
     (if c = CHR ''%'' then None else if isspace c then Some [WS] else Some [Lit c])"
| "compile_format (c # c' # cs) =
     (if c = CHR ''%''
      then (case (directive_of c', compile_format cs) of
              (Some d, Some ds) \<Rightarrow> Some (d # ds)
            | _ \<Rightarrow> None)
      else if isspace c
      then (if isspace c' then compile_format (c' # cs)
            else map_option (\<lambda>ds. WS # ds) (compile_format (c' # cs)))
      else map_option (\<lambda>ds. Lit c # ds) (compile_format (c' # cs)))"

text \<open>
  \<open>datetime.strptime(s, fmt)\<close>: the first match must end at the end of the text; a missing
  year is 1900; the date must exist. \<open>None\<close> is ValueError.
\<close>

definition strptime :: "string \<Rightarrow> string \<Rightarrow> datetime option" where
  "strptime s fmt =
     (case compile_format fmt of
        None \<Rightarrow> None
      | Some ds \<Rightarrow>
          (case re_match ds s \<lparr>f_year = None, f_month = 1, f_day = 1, f_hour = 0, f_minute = 0\<rparr> of
             [] \<Rightarrow> None
           | (f, r) # other \<Rightarrow>
               if r \<noteq> [] then None
               else make_datetime (case f_year f of None \<Rightarrow> 1900 | Some y \<Rightarrow> y)
                      (f_month f) (f_day f) (f_hour f) (f_minute f) 0 0 None))"

text \<open>Lines 64 to 69.\<close>

definition DATE_FORMATS :: "string list" where
  "DATE_FORMATS = [''%Y-%m-%d %H:%M'', ''%Y-%m-%d'', ''%b %d %Y %H:%M'', ''%b %d %H:%M'']"

text \<open>\<open>dt.replace(year=y)\<close> builds a new value and so checks the date again.\<close>

definition replace_year :: "datetime \<Rightarrow> nat \<Rightarrow> datetime option" where
  "replace_year dt y =
     make_datetime y (month dt) (day dt) (hour dt) (minute dt) (second dt) (microsecond dt)
       (tzinfo dt)"

text \<open>
  Lines 71 to 82. \<open>now\<close> is the value of \<open>datetime.now()\<close>. The loop goes on to the next
  format on ValueError, whether \<open>strptime\<close> or \<open>replace\<close> raised it.
\<close>

fun parse_when_loop :: "datetime \<Rightarrow> string \<Rightarrow> string list \<Rightarrow> datetime option" where
  "parse_when_loop now s [] = None"
| "parse_when_loop now s (fmt # fmts) =
     (case strptime s fmt of
        None \<Rightarrow> parse_when_loop now s fmts
      | Some dt \<Rightarrow>
          if \<not> str_in ''%Y'' fmt
          then (case replace_year dt (year now) of
                  None \<Rightarrow> parse_when_loop now s fmts
                | Some dt' \<Rightarrow> Some dt')
          else Some dt)"

definition parse_when :: "datetime \<Rightarrow> string \<Rightarrow> datetime option" where
  "parse_when now s = parse_when_loop now (strip s) DATE_FORMATS"

section \<open>The server and the platform\<close>

text \<open>
  What the program reads and changes of the server through the client library: its
  categories, roles and channels, the members it has and the members in the client's
  cache. The id of the server is also the id of its default role. \<open>g_next_id\<close> is the id
  the platform gives to the next object it creates. The platform refuses a call the bot
  has no permission for with Forbidden: \<open>g_can_manage\<close> says whether the bot may create and
  edit channels, categories and roles, \<open>g_can_send\<close> whether it may post messages. Messages
  themselves are not part of the state.
\<close>

record category =
  cat_id :: nat
  cat_name :: string

record guild =
  g_id :: nat
  g_categories :: "category list"
  g_roles :: "role list"
  g_members :: "nat list"
  g_cached :: "nat list"
  g_channels :: "channel list"
  g_next_id :: nat
  g_can_manage :: bool
  g_can_send :: bool

text \<open>Lines 34 to 39: the configuration and its defaults.\<close>

record BotConfig =
  guild_id :: "nat option"
  active_category_name :: string
  archived_category_name :: string
  editors_role_name :: string

definition default_config :: BotConfig where
  "default_config =
     \<lparr>guild_id = None, active_category_name = ''Active Articles'',
      archived_category_name = ''Archived Articles'', editors_role_name = ''Editors''\<rparr>"

text \<open>The calls of the client library, each returning the result and the new state.\<close>

definition create_category :: "guild \<Rightarrow> string \<Rightarrow> py_error + (category \<times> guild)" where
  "create_category g name =
     (if g_can_manage g
      then (let c = \<lparr>cat_id = g_next_id g, cat_name = name\<rparr>
            in Inr (c, g\<lparr>g_categories := g_categories g @ [c], g_next_id := Suc (g_next_id g)\<rparr>))
      else Inl Forbidden)"

definition create_text_channel ::
  "guild \<Rightarrow> string \<Rightarrow> nat \<Rightarrow> overwrites \<Rightarrow> string \<Rightarrow> py_error + (channel \<times> guild)" where
  "create_text_channel g name cat ows topic =
     (if g_can_manage g
      then (let ch = \<lparr>ch_id = g_next_id g, ch_name = name, ch_is_text = True,
                      ch_topic = Some topic, ch_category = Some cat, ch_overwrites = ows\<rparr>
            in Inr (ch, g\<lparr>g_channels := g_channels g @ [ch], g_next_id := Suc (g_next_id g)\<rparr>))
      else Inl Forbidden)"

text \<open>\<open>ch.edit(...)\<close>: the channel with this id is replaced by its edited value.\<close>

definition edit_channel :: "guild \<Rightarrow> channel \<Rightarrow> py_error + guild" where
  "edit_channel g ch' =
     (if g_can_manage g
      then Inr (g\<lparr>g_channels := map (\<lambda>c. if ch_id c = ch_id ch' then ch' else c) (g_channels g)\<rparr>)
      else Inl Forbidden)"

definition send_message :: "guild \<Rightarrow> py_error + unit" where
  "send_message g = (if g_can_send g then Inr () else Inl Forbidden)"

text \<open>
  \<open>guild.get_member\<close> looks in the cache and returns nothing for an id it does not hold;
  \<open>guild.fetch_member\<close> asks the platform and raises NotFound for an id that is not a
  member of the server.
\<close>

definition get_member :: "guild \<Rightarrow> nat \<Rightarrow> nat option" where
  "get_member g uid = (if uid \<in> set (g_cached g) then Some uid else None)"

definition fetch_member :: "guild \<Rightarrow> nat \<Rightarrow> py_error + nat" where
  "fetch_member g uid = (if uid \<in> set (g_members g) then Inr uid else Inl NotFound)"

text \<open>Lines 96 to 103. Both lookups come before the first creation.\<close>

definition ensure_categories ::
  "BotConfig \<Rightarrow> guild \<Rightarrow> py_error + (category \<times> category \<times> guild)" where
  "ensure_categories config g =
     (let active = find (\<lambda>c. cat_name c = active_category_name config) (g_categories g);
          archived = find (\<lambda>c. cat_name c = archived_category_name config) (g_categories g)
      in case (case active of
                 Some a \<Rightarrow> Inr (a, g)
               | None \<Rightarrow> create_category g (active_category_name config)) of
           Inl e \<Rightarrow> Inl e
         | Inr (a, g1) \<Rightarrow>
             (case (case archived of
                      Some b \<Rightarrow> Inr (b, g1)
                    | None \<Rightarrow> create_category g1 (archived_category_name config)) of
                Inl e \<Rightarrow> Inl e
              | Inr (b, g2) \<Rightarrow> Inr (a, b, g2)))"

section \<open>The commands\<close>

text \<open>
  What a command answers to the user who called it:
  \<^item> \<open>MustBeInServer\<close>: "This command must be used in a server."
  \<^item> \<open>CouldntParseDeadline\<close>: "Couldn't parse the deadline. Use `YYYY-MM-DD HH:MM` (24-hour)."
  \<^item> \<open>ChooseTextChannel\<close>: "Choose a text channel to archive."
  \<^item> \<open>Created ch writers\<close>: "Created ... for ... Writers added: ..."
  \<^item> \<open>Archived ch\<close>: "Archived ... (posting locked; Editors can still post)."
  \<^item> \<open>MissingPermissions\<close>: "Missing permissions: ..."
  \<^item> \<open>ErrorWhile e\<close>: "Error while creating channel: ..." or "Error while archiving: ...",
    with the name of the exception's class.
\<close>

datatype reply =
  MustBeInServer | CouldntParseDeadline | ChooseTextChannel
  | Created nat "nat list" | Archived nat | MissingPermissions | ErrorWhile py_error

text \<open>The handlers at the end of both commands: lines 262 to 268 and 320 to 326.\<close>

definition handle :: "py_error \<Rightarrow> reply" where
  "handle e = (if e = Forbidden then MissingPermissions else ErrorWhile e)"

text \<open>
  Lines 220 to 226: the ids in the writers text. A token counts when it starts with
  \<open><@\<close>, ends with \<open>>\<close> and is made of digits once the characters \<open><\<close>, \<open>@\<close>, \<open>!\<close>
  and \<open>>\<close> are stripped from its ends. The digits are the ASCII digits, for which
  \<open>int\<close> on line 226 cannot fail.
\<close>

fun mention_ids :: "string list \<Rightarrow> nat list" where
  "mention_ids [] = []"
| "mention_ids (mention # mentions) =
     (if prefix ''<@'' mention \<and> suffix ''>'' mention
      then (case parse_digits (strip_chars ''<@!>'' mention) of
              Some uid \<Rightarrow> uid # mention_ids mentions
            | None \<Rightarrow> mention_ids mentions)
      else mention_ids mentions)"

definition user_ids_of :: "string option \<Rightarrow> nat list" where
  "user_ids_of writers =
     (case writers of
        None \<Rightarrow> []
      | Some w \<Rightarrow> if w = [] then [] else mention_ids (split w))"

text \<open>
  Lines 228 to 235: the loop over the distinct ids. An id in the cache is used as it is;
  any other id is fetched, and an exception of the fetch leaves the loop and the command's
  \<open>try\<close> block.
\<close>

fun resolve_writers ::
  "guild \<Rightarrow> nat list \<Rightarrow> nat list \<Rightarrow> overwrites \<Rightarrow> py_error + (nat list \<times> overwrites)" where
  "resolve_writers g [] allowed_users overwrites = Inr (allowed_users, overwrites)"
| "resolve_writers g (uid # uids) allowed_users overwrites =
     (case (case get_member g uid of Some m \<Rightarrow> Inr m | None \<Rightarrow> fetch_member g uid) of
        Inl e \<Rightarrow> Inl e
      | Inr member \<Rightarrow>
          resolve_writers g uids (allowed_users @ [member])
            (AList.update (Member member)
               \<lparr>view_channel = Some True, send_messages = Some True,
                read_message_history = Some True, manage_messages = None\<rparr> overwrites))"

text \<open>
  Lines 192 to 268. \<open>guild\<close> is \<open>interaction.guild\<close>, absent outside a server; \<open>now\<close> is
  the clock read by \<open>parse_when\<close>. The result is the reply and the state of the server
  afterwards. The set of line 229 is the list of ids without its duplicates
  (Python leaves the order of a set open; nothing proved here depends on it). The checklist message is a call to
  \<open>send_message\<close>; pinning it changes nothing of the state and a refusal is ignored on
  line 255, so it is left out, as is the text of the checklist, which prints the
  deadline's timestamp.
\<close>

definition new_article ::
  "BotConfig \<Rightarrow> datetime \<Rightarrow> guild option \<Rightarrow> string \<Rightarrow> string \<Rightarrow> string option
   \<Rightarrow> reply \<times> guild option" where
  "new_article config now guild title deadline writers =
     (case guild of
        None \<Rightarrow> (MustBeInServer, None)
      | Some g \<Rightarrow>
          (case parse_when now deadline of
             None \<Rightarrow> (CouldntParseDeadline, Some g)
           | Some dt \<Rightarrow>
               (case ensure_categories config g of
                  Inl e \<Rightarrow> (handle e, Some g)
                | Inr (active_cat, archived_cat, g1) \<Rightarrow>
                    (let editors_role =
                           find (\<lambda>r. role_name r = editors_role_name config) (g_roles g1);
                         channel_name = slugify title;
                         overwrites =
                           [(Role (g_id g1),
                             \<lparr>view_channel = Some False, send_messages = None,
                              read_message_history = None, manage_messages = None\<rparr>)];
                         overwrites =
                           (case editors_role of
                              None \<Rightarrow> overwrites
                            | Some e \<Rightarrow>
                                AList.update (Role (role_id e))
                                  \<lparr>view_channel = Some True, send_messages = Some True,
                                   read_message_history = Some True,
                                   manage_messages = Some True\<rparr> overwrites)
                     in case resolve_writers g1 (remdups (user_ids_of writers)) [] overwrites of
                          Inl e \<Rightarrow> (handle e, Some g1)
                        | Inr (allowed_users, overwrites) \<Rightarrow>
                            (case create_text_channel g1 channel_name (cat_id active_cat)
                                    overwrites (article_topic title dt) of
                               Inl e \<Rightarrow> (handle e, Some g1)
                             | Inr (channel, g2) \<Rightarrow>
                                 (case send_message g2 of
                                    Inl e \<Rightarrow> (handle e, Some g2)
                                  | Inr u \<Rightarrow> (Created (ch_id channel) allowed_users, Some g2)))))))"

text \<open>
  Lines 272 to 326. \<open>channel\<close> is the optional argument, the id of a text channel;
  \<open>here\<close> is \<open>interaction.channel\<close>, the id of the channel the command was called in.
  An id that is not a text channel of the server fails the \<open>isinstance\<close> test.
  \<open>ch.overwrites\<close> on line 291 is the dictionary as the channel record holds it: how the
  client library resolves the stored ids to members, roles or bare objects at that moment
  is not modelled, here or in the sweeper.
\<close>

definition archive_channel ::
  "BotConfig \<Rightarrow> guild option \<Rightarrow> nat option \<Rightarrow> nat option \<Rightarrow> reply \<times> guild option" where
  "archive_channel config guild channel here =
     (case guild of
        None \<Rightarrow> (MustBeInServer, None)
      | Some g \<Rightarrow>
          (case ensure_categories config g of
             Inl e \<Rightarrow> (handle e, Some g)
           | Inr (active_cat, archived_cat, g1) \<Rightarrow>
               (case (case (case channel of Some c \<Rightarrow> Some c | None \<Rightarrow> here) of
                        None \<Rightarrow> None
                      | Some c \<Rightarrow> find (\<lambda>x. ch_id x = c \<and> ch_is_text x) (g_channels g1)) of
                  None \<Rightarrow> (ChooseTextChannel, Some g1)
                | Some ch \<Rightarrow>
                    (case edit_channel g1 (ch\<lparr>ch_category := Some (cat_id archived_cat)\<rparr>) of
                       Inl e \<Rightarrow> (handle e, Some g1)
                     | Inr g2 \<Rightarrow>
                         (let editors_role =
                                find (\<lambda>r. role_name r = editors_role_name config) (g_roles g2);
                              cleaned = archive_overwrites editors_role (g_id g2) (ch_overwrites ch)
                          in case edit_channel g2
                                    (ch\<lparr>ch_category := Some (cat_id archived_cat),
                                        ch_overwrites := cleaned\<rparr>) of
                               Inl e \<Rightarrow> (handle e, Some g2)
                             | Inr g3 \<Rightarrow> (Archived (ch_id ch), Some g3))))))"

section \<open>The sweeper\<close>

text \<open>
  Lines 341 to 371: the loop over the text channels that were in the active category when
  the tick started. The deadline is decoded and compared with \<open>now\<close> before the \<open>try\<close>
  block is entered, so an exception of the comparison leaves the loop and the task; an
  exception of the three platform calls inside the block skips the channel.
\<close>

fun sweep_loop ::
  "category \<Rightarrow> role option \<Rightarrow> datetime \<Rightarrow> channel list \<Rightarrow> guild
   \<Rightarrow> py_error option \<times> guild" where
  "sweep_loop archived_cat editors_role now [] g = (None, g)"
| "sweep_loop archived_cat editors_role now (ch # chs) g =
     (case extract_deadline_from_topic (ch_topic ch) of
        None \<Rightarrow> sweep_loop archived_cat editors_role now chs g
      | Some dl \<Rightarrow>
          (case datetime_lt dl now of
             Inl e \<Rightarrow> (Some e, g)
           | Inr past \<Rightarrow>
               if \<not> past then sweep_loop archived_cat editors_role now chs g
               else
                 (case send_message g of
                    Inl e \<Rightarrow> sweep_loop archived_cat editors_role now chs g
                  | Inr u \<Rightarrow>
                      (case edit_channel g (ch\<lparr>ch_category := Some (cat_id archived_cat)\<rparr>) of
                         Inl e \<Rightarrow> sweep_loop archived_cat editors_role now chs g
                       | Inr g1 \<Rightarrow>
                           (case edit_channel g1
                                   (ch\<lparr>ch_category := Some (cat_id archived_cat),
                                       ch_overwrites :=
                                         sweeper_overwrites editors_role (g_id g1)
                                           (ch_overwrites ch)\<rparr>) of
                              Inl e \<Rightarrow> sweep_loop archived_cat editors_role now chs g1
                            | Inr g2 \<Rightarrow> sweep_loop archived_cat editors_role now chs g2)))))"

text \<open>
  Lines 331 to 340. \<open>guild\<close> is what \<open>bot.get_guild\<close> returns for the configured id. The
  result is the exception that left the task, if any, and the state of the server.
\<close>

definition sweeper :: "BotConfig \<Rightarrow> guild option \<Rightarrow> datetime \<Rightarrow> py_error option \<times> guild option" where
  "sweeper config guild now =
     (if guild_id config = None then (None, guild)
      else (case guild of
              None \<Rightarrow> (None, None)
            | Some g \<Rightarrow>
                (case ensure_categories config g of
                   Inl e \<Rightarrow> (Some e, Some g)
                 | Inr (active_cat, archived_cat, g1) \<Rightarrow>
                     (let editors_role =
                            find (\<lambda>r. role_name r = editors_role_name config) (g_roles g1);
                          (err, g2) =
                            sweep_loop archived_cat editors_role now
                              (filter (\<lambda>c. ch_is_text c \<and> ch_category c = Some (cat_id active_cat))
                                 (g_channels g1)) g1
                      in (err, Some g2)))))"

section \<open>Properties of the archive transition\<close>

lemma update_absent: "k \<notin> fst ` set al \<Longrightarrow> AList.update k v al = al @ [(k, v)]"
  by (induction al) auto

lemma update_set:
  "(t, p) \<in> set (AList.update k v al) \<Longrightarrow> (t, p) = (k, v) \<or> (t, p) \<in> set al"
  by (induction al) (auto split: if_splits)



lemma archive_clean_keys:
  "fst ` set (archive_clean ed items cleaned) = fst ` set items \<union> fst ` set cleaned"
  by (induction ed items cleaned rule: archive_clean.induct) (auto simp: AList.dom_update)

lemma archive_overwrites_keys:
  "fst ` set (archive_overwrites ed d ows) = insert (Role d) (fst ` set ows)"
  by (simp add: archive_overwrites_def archive_clean_keys AList.dom_update)

lemma archive_clean_keys_distinct:
  "distinct (map fst cleaned) \<Longrightarrow> distinct (map fst (archive_clean ed items cleaned))"
  by (induction ed items cleaned rule: archive_clean.induct)
     (simp_all add: AList.distinct_update)

text \<open>
  Over items with distinct keys, none of them in \<open>cleaned\<close> yet, the loop appends one
  entry per item, in order.
\<close>

lemma archive_clean_distinct_items:
  "distinct (map fst items) \<Longrightarrow> fst ` set items \<inter> fst ` set cleaned = {} \<Longrightarrow>
   archive_clean ed items cleaned = cleaned @ map (\<lambda>t. (t, archive_entry ed t)) (map fst items)"
proof (induction ed items cleaned rule: archive_clean.induct)
  case (1 ed cleaned)
  then show ?case by simp
next
  case (2 ed target perms items cleaned)
  let ?c = "AList.update target (archive_entry ed target) cleaned"
  have a: "target \<notin> fst ` set cleaned" using 2(3) by auto
  have d: "distinct (map fst items)" using 2(2) by simp
  have n: "target \<notin> fst ` set items" using 2(2) by auto
  have k: "fst ` set ?c = {target} \<union> fst ` set cleaned" by (rule AList.dom_update)
  have i: "fst ` set items \<inter> fst ` set ?c = {}" using 2(3) n unfolding k by auto
  have "archive_clean ed items ?c = ?c @ map (\<lambda>t. (t, archive_entry ed t)) (map fst items)"
    by (rule 2(1)[OF d i])
  then show ?case using a by (simp add: update_absent)
qed

lemma archive_clean_values:
  "(\<forall>(t, p) \<in> set cleaned. p = archive_entry ed t) \<Longrightarrow>
   (\<forall>(t, p) \<in> set (archive_clean ed items cleaned). p = archive_entry ed t)"
proof (induction ed items cleaned rule: archive_clean.induct)
  case (1 ed cleaned)
  then show ?case by simp
next
  case (2 ed target perms items cleaned)
  have "\<forall>(t, p) \<in> set (AList.update target (archive_entry ed target) cleaned).
          p = archive_entry ed t"
    using 2(2) update_set[of _ _ target "archive_entry ed target" cleaned] by blast
  then show ?case using 2(1) by simp
qed

lemma archive_overwrites_twice:
  "archive_overwrites ed d (archive_overwrites ed d ows) = archive_overwrites ed d ows"
proof -
  let ?ro = "\<lparr>view_channel = Some True, send_messages = Some False,
           read_message_history = Some True, manage_messages = None\<rparr>"
  let ?R = "archive_overwrites ed d ows"
  let ?L = "AList.update (Role d) ?ro ?R"
  have dist: "distinct (map fst ?R)"
    unfolding archive_overwrites_def by (rule archive_clean_keys_distinct) simp
  have mem: "Role d \<in> fst ` set ?R"
    by (simp add: archive_overwrites_keys)
  have vals: "\<forall>(t, p) \<in> set ?R. p = archive_entry ed t"
    unfolding archive_overwrites_def by (rule archive_clean_values) simp
  have keys: "map fst ?L = map fst ?R"
    using mem by (simp add: AList.update_keys)
  have "archive_clean ed ?L [] = [] @ map (\<lambda>t. (t, archive_entry ed t)) (map fst ?L)"
    by (rule archive_clean_distinct_items) (simp_all add: keys dist)
  also have "\<dots> = map (\<lambda>x. (fst x, archive_entry ed (fst x))) ?R"
    by (simp add: keys o_def)
  also have "\<dots> = ?R"
    using vals by (intro map_idI) auto
  finally show ?thesis
    by (subst archive_overwrites_def) simp
qed

lemma archive_sweeper_entry: "sweeper_entry ed t = archive_entry ed t"
  by (cases t) simp_all

lemma archive_sweeper_clean: "sweeper_clean ed items cleaned = archive_clean ed items cleaned"
  by (induction ed items cleaned rule: archive_clean.induct)
     (simp_all add: archive_sweeper_entry)




text \<open>
  Claim C4. The archive transition is idempotent: computed from its own result, with the
  same Editors role, the overwrite dictionary comes out the same, entry for entry and in
  the same order, and a channel edited twice is the channel edited once (same category,
  same overwrites).
\<close>

theorem archive_idempotent:
  "archive_overwrites editors_role default_role
     (archive_overwrites editors_role default_role overwrites)
   = archive_overwrites editors_role default_role overwrites
   \<and> archive_edits archived_cat editors_role default_role
       (archive_edits archived_cat editors_role default_role ch)
     = archive_edits archived_cat editors_role default_role ch"
  by (simp add: archive_edits_def archive_overwrites_twice)

text \<open>
  Claim C10. The sweeper's copy of the cleaning code computes the same overwrite
  dictionary as the archive command's, for every dictionary, every default role and
  every Editors role, present or absent.
\<close>

theorem sweeper_overwrites_eq_archive_overwrites:
  "sweeper_overwrites editors_role default_role overwrites
   = archive_overwrites editors_role default_role overwrites"
  by (simp add: sweeper_overwrites_def archive_overwrites_def archive_sweeper_clean)

section \<open>Properties of printing and parsing dates\<close>

declare str_nat.simps [simp del]

lemma digit_cases: "d < 10 \<Longrightarrow> d = 0 \<or> d = 1 \<or> d = 2 \<or> d = 3 \<or> d = 4 \<or> d = 5 \<or> d = 6 \<or> d = 7 \<or> d = 8 \<or> d = (9::nat)"
  by arith

lemma digit_char_isdigit: "d < 10 \<Longrightarrow> isdigit (digit_char d)"
  using digit_cases[of d] by (auto simp: isdigit_def digit_char_def)

lemma digit_char_val: "d < 10 \<Longrightarrow> (of_char (digit_char d) :: nat) - 48 = d"
  using digit_cases[of d] by (auto simp: digit_char_def)

lemma digit_char_neq:
  "d < 10 \<Longrightarrow> digit_char d \<noteq> CHR '']'' \<and> digit_char d \<noteq> CHR ''-'' \<and> digit_char d \<noteq> CHR ''+''
     \<and> digit_char d \<noteq> CHR '':'' \<and> digit_char d \<noteq> CHR ''.''"
  using digit_cases[of d] by (auto simp: digit_char_def)

lemma fmt_0d_1: "n < 10 \<Longrightarrow> fmt_0d (Suc 0) n = [digit_char n]"
  by (simp add: fmt_0d_def str_nat.simps)

lemma str_nat_nonempty: "str_nat n \<noteq> []"
  by (subst str_nat.simps) simp

lemma fmt_0d_Suc: "1 \<le> w \<Longrightarrow> fmt_0d (Suc w) n = fmt_0d w (n div 10) @ [digit_char (n mod 10)]"
proof (cases "n < 10")
  case True
  assume w: "1 \<le> w"
  have "str_nat n = [digit_char n]" using True by (simp add: str_nat.simps)
  moreover have "str_nat 0 = [digit_char 0]" by (simp add: str_nat.simps)
  moreover have "replicate w (CHR ''0'') = replicate (w - 1) (CHR ''0'') @ [digit_char 0]"
    using w by (cases w) (simp_all add: digit_char_def replicate_append_same)
  ultimately show ?thesis using True by (simp add: fmt_0d_def)
next
  case False
  then have "str_nat n = str_nat (n div 10) @ [digit_char (n mod 10)]"
    by (subst str_nat.simps) simp
  then show ?thesis by (simp add: fmt_0d_def Suc_diff_le)
qed

lemma fmt_0d_step:
  "w = Suc v \<Longrightarrow> 1 \<le> v \<Longrightarrow> fmt_0d w n = fmt_0d v (n div 10) @ [digit_char (n mod 10)]"
  by (simp add: fmt_0d_Suc)

lemma fmt_0d_2: "n < 100 \<Longrightarrow> fmt_0d 2 n = [digit_char (n div 10), digit_char (n mod 10)]"
proof -
  assume "n < 100"
  then have "n div 10 < 10" by arith
  then show ?thesis using fmt_0d_Suc[of 1 n] by (simp add: fmt_0d_1 numeral_2_eq_2)
qed

lemma fmt_0d_4:
  "n < 10000 \<Longrightarrow> fmt_0d 4 n =
     [digit_char (n div 10 div 10 div 10), digit_char (n div 10 div 10 mod 10),
      digit_char (n div 10 mod 10), digit_char (n mod 10)]"
proof -
  assume "n < 10000"
  then have a: "n div 10 div 10 < 100" by arith
  have "fmt_0d 4 n = fmt_0d 3 (n div 10) @ [digit_char (n mod 10)]"
    by (rule fmt_0d_step) simp_all
  also have "fmt_0d 3 (n div 10) = fmt_0d 2 (n div 10 div 10) @ [digit_char (n div 10 mod 10)]"
    by (rule fmt_0d_step) simp_all
  finally show ?thesis by (simp add: fmt_0d_2[OF a])
qed

lemma fmt_0d_6:
  "n < 1000000 \<Longrightarrow> fmt_0d 6 n =
     [digit_char (n div 10 div 10 div 10 div 10 div 10),
      digit_char (n div 10 div 10 div 10 div 10 mod 10),
      digit_char (n div 10 div 10 div 10 mod 10), digit_char (n div 10 div 10 mod 10),
      digit_char (n div 10 mod 10), digit_char (n mod 10)]"
proof -
  assume "n < 1000000"
  then have a: "n div 10 div 10 < 10000" by arith
  have "fmt_0d 6 n = fmt_0d 5 (n div 10) @ [digit_char (n mod 10)]"
    by (rule fmt_0d_step) simp_all
  also have "fmt_0d 5 (n div 10) = fmt_0d 4 (n div 10 div 10) @ [digit_char (n div 10 mod 10)]"
    by (rule fmt_0d_step) simp_all
  finally show ?thesis by (simp add: fmt_0d_4[OF a])
qed

lemma parse_digits_2:
  "a < 10 \<Longrightarrow> b < 10 \<Longrightarrow> parse_digits [digit_char a, digit_char b] = Some (10 * a + b)"
  by (simp add: parse_digits_def digit_char_isdigit digit_char_val)

lemma parse_digits_4:
  "a < 10 \<Longrightarrow> b < 10 \<Longrightarrow> c < 10 \<Longrightarrow> d < 10 \<Longrightarrow>
   parse_digits [digit_char a, digit_char b, digit_char c, digit_char d]
   = Some (10 * (10 * (10 * a + b) + c) + d)"
  by (simp add: parse_digits_def digit_char_isdigit digit_char_val)

lemma parse_digits_6:
  "a < 10 \<Longrightarrow> b < 10 \<Longrightarrow> c < 10 \<Longrightarrow> d < 10 \<Longrightarrow> e < 10 \<Longrightarrow> f < 10 \<Longrightarrow>
   parse_digits [digit_char a, digit_char b, digit_char c, digit_char d, digit_char e, digit_char f]
   = Some (10 * (10 * (10 * (10 * (10 * a + b) + c) + d) + e) + f)"
  by (simp add: parse_digits_def digit_char_isdigit digit_char_val)

lemma digit_char_neq':
  "d < 10 \<Longrightarrow> CHR '']'' \<noteq> digit_char d \<and> CHR ''-'' \<noteq> digit_char d \<and> CHR ''+'' \<noteq> digit_char d
     \<and> CHR '':'' \<noteq> digit_char d \<and> CHR ''.'' \<noteq> digit_char d"
  using digit_char_neq[of d] by auto

lemma div_digits:
  "n < 10000 \<Longrightarrow> n div 10 div 10 div 10 < (10::nat)"
  "n < 1000000 \<Longrightarrow> n div 10 div 10 div 10 div 10 div 10 < (10::nat)"
  "n < 100 \<Longrightarrow> n div 10 < (10::nat)"
  by arith+

section \<open>Properties of the deadline in the topic\<close>

lemma find_from_None_iff: "find_from sub s = None \<longleftrightarrow> \<not> sublist sub s"
  by (induction s) (auto simp: sublist_Cons_right)

lemma find_from_first:
  "sub \<noteq> [] \<Longrightarrow> \<not> sublist sub (pre @ butlast sub) \<Longrightarrow>
   find_from sub (pre @ sub @ rest) = Some (length pre)"
proof (induction pre)
  case Nil
  then show ?case by (cases sub) simp_all
next
  case (Cons c pre)
  obtain bs l where s: "sub = bs @ [l]"
    using Cons.prems(1) by (cases sub rule: rev_cases) auto
  have np: "\<not> prefix sub (c # pre @ sub @ rest)"
  proof
    assume "prefix sub (c # pre @ sub @ rest)"
    then have "prefix sub (((c # pre) @ bs) @ (l # rest))"
      by (simp add: s)
    moreover have "prefix ((c # pre) @ bs) (((c # pre) @ bs) @ (l # rest))"
      by (rule prefixI) simp
    moreover have "length sub \<le> length ((c # pre) @ bs)"
      by (simp add: s)
    ultimately have "prefix sub ((c # pre) @ bs)"
      by (rule prefix_length_prefix)
    then have "sublist sub ((c # pre) @ butlast sub)"
      by (simp add: s prefix_imp_sublist)
    then show False using Cons.prems(2) by simp
  qed
  have "\<not> sublist sub (pre @ butlast sub)"
    using Cons.prems(2) by (auto simp: sublist_Cons_right)
  then have "find_from sub (pre @ sub @ rest) = Some (length pre)"
    using Cons.IH Cons.prems(1) by simp
  then show ?case using np by simp
qed

lemma find_from_char:
  "c \<notin> set mid \<Longrightarrow> find_from [c] (mid @ c # rest) = Some (length mid)"
  by (induction mid) auto

lemma find_from_char_None: "c \<notin> set s \<Longrightarrow> find_from [c] s = None"
  by (induction s) auto

lemma extract_first_tag:
  assumes "\<not> sublist DEADLINE_TAG (pre @ butlast DEADLINE_TAG)" "CHR '']'' \<notin> set mid"
  shows "extract_deadline_from_topic (Some (pre @ DEADLINE_TAG @ mid @ CHR '']'' # rest))
         = fromisoformat mid"
proof -
  let ?t = "pre @ DEADLINE_TAG @ mid @ CHR '']'' # rest"
  have ne: "DEADLINE_TAG \<noteq> []" by (simp add: DEADLINE_TAG_def)
  have f: "find_from DEADLINE_TAG ?t = Some (length pre)"
    using find_from_first[OF ne assms(1)] by simp
  have d: "drop (length pre + length DEADLINE_TAG) ?t = mid @ CHR '']'' # rest"
    by simp
  have g: "find_from '']'' (mid @ CHR '']'' # rest) = Some (length mid)"
    using assms(2) by (rule find_from_char)
  have t: "?t \<noteq> []" using ne by simp
  show ?thesis
    unfolding extract_deadline_from_topic_def
    using t by (simp add: str_in_def str_find_def f d g Let_def del: append_assoc)
qed

lemma extract_no_bracket:
  assumes "\<not> sublist DEADLINE_TAG (pre @ butlast DEADLINE_TAG)" "CHR '']'' \<notin> set rest"
  shows "extract_deadline_from_topic (Some (pre @ DEADLINE_TAG @ rest)) = None"
proof -
  let ?t = "pre @ DEADLINE_TAG @ rest"
  have ne: "DEADLINE_TAG \<noteq> []" by (simp add: DEADLINE_TAG_def)
  have f: "find_from DEADLINE_TAG ?t = Some (length pre)"
    using find_from_first[OF ne assms(1)] by simp
  have d: "drop (length pre + length DEADLINE_TAG) ?t = rest"
    by simp
  have g: "find_from '']'' rest = None"
    using assms(2) by (rule find_from_char_None)
  show ?thesis
    unfolding extract_deadline_from_topic_def
    by (simp add: str_in_def str_find_def f d g Let_def del: append_assoc)
qed

lemma extract_no_tag:
  "\<not> sublist DEADLINE_TAG t \<Longrightarrow> extract_deadline_from_topic (Some t) = None"
  by (simp add: extract_deadline_from_topic_def str_in_def find_from_None_iff)


text \<open>
  Printing and parsing, field by field: what \<open>isoformat\<close> prints for a valid value,
  naive or aware, \<open>fromisoformat\<close> reads back as the same value, and the text holds no
  closing bracket.
\<close>

lemma parse_date_fmt:
  assumes "y < 10000" "m < 100" "d < 100"
  shows "parse_isoformat_date (fmt_0d 4 y @ ''-'' @ fmt_0d 2 m @ ''-'' @ fmt_0d 2 d) = Some (y, m, d)"
  using assms
  by (simp add: parse_isoformat_date_def fmt_0d_2 fmt_0d_4 parse_digits_2 parse_digits_4 div_digits)

lemma parse_time_fmt_5:
  assumes "h < 100" "m < 100"
  shows "parse_hh_mm_ss_ff (fmt_0d 2 h @ '':'' @ fmt_0d 2 m) = Some (h, m, 0, 0)"
  using assms
  by (simp add: parse_hh_mm_ss_ff_def fmt_0d_2 parse_digits_2 div_digits)

lemma parse_time_fmt_8:
  assumes "h < 100" "m < 100" "s < 100"
  shows "parse_hh_mm_ss_ff (fmt_0d 2 h @ '':'' @ fmt_0d 2 m @ '':'' @ fmt_0d 2 s) = Some (h, m, s, 0)"
  using assms
  by (simp add: parse_hh_mm_ss_ff_def fmt_0d_2 parse_digits_2 div_digits)

lemma parse_time_fmt_15:
  assumes "h < 100" "m < 100" "s < 100" "us < 1000000"
  shows "parse_hh_mm_ss_ff (fmt_0d 2 h @ '':'' @ fmt_0d 2 m @ '':'' @ fmt_0d 2 s @ ''.'' @ fmt_0d 6 us)
         = Some (h, m, s, us)"
  using assms
  by (simp add: parse_hh_mm_ss_ff_def fmt_0d_2 fmt_0d_6 parse_digits_2 parse_digits_6 div_digits)

lemma offset_parts:
  fixes a :: nat
  shows "((a div 3600000000 * 60 + a div 60000000 mod 60) * 60 + a div 1000000 mod 60) * 1000000
         + a mod 1000000 = a"
proof -
  define b where "b = a div 1000000"
  have 1: "a div 60000000 = b div 60"
    unfolding b_def by (simp add: div_mult2_eq[symmetric])
  have 2: "a div 3600000000 = b div 60 div 60"
    unfolding b_def by (simp add: div_mult2_eq[symmetric])
  have "(b div 60 div 60 * 60 + b div 60 mod 60) * 60 + b mod 60 = b"
    by simp
  then show ?thesis
    unfolding 1 2 b_def[symmetric] by (simp add: b_def)
qed


lemma fmt_0d_2_plain:
  "n < 100 \<Longrightarrow> length (fmt_0d 2 n) = 2 \<and> CHR ''-'' \<notin> set (fmt_0d 2 n)
     \<and> CHR ''+'' \<notin> set (fmt_0d 2 n) \<and> CHR '']'' \<notin> set (fmt_0d 2 n)"
  by (simp add: fmt_0d_2 div_digits digit_char_neq')

lemma fmt_0d_6_plain:
  "n < 1000000 \<Longrightarrow> length (fmt_0d 6 n) = 6 \<and> CHR ''-'' \<notin> set (fmt_0d 6 n)
     \<and> CHR ''+'' \<notin> set (fmt_0d 6 n) \<and> CHR '']'' \<notin> set (fmt_0d 6 n)"
  by (simp add: fmt_0d_6 div_digits digit_char_neq')

lemma fmt_0d_4_plain:
  "n < 10000 \<Longrightarrow> length (fmt_0d 4 n) = 4 \<and> CHR '']'' \<notin> set (fmt_0d 4 n)"
  by (simp add: fmt_0d_4 div_digits digit_char_neq')

lemma find_sign_at:
  assumes "CHR ''-'' \<notin> set TM" "CHR ''+'' \<notin> set TM" "CHR ''-'' \<notin> set TZ"
    and "sg = CHR ''+'' \<or> sg = CHR ''-''"
  shows "find_sign (TM @ sg # TZ) = Some (length TM)"
proof (cases "sg = CHR ''-''")
  case True
  then show ?thesis using assms(1) by (simp add: find_sign_def find_from_char)
next
  case False
  then have sg: "sg = CHR ''+''" using assms(4) by simp
  have "CHR ''-'' \<notin> set (TM @ sg # TZ)" using assms(1,3) sg by simp
  then have "find_from ''-'' (TM @ sg # TZ) = None" by (rule find_from_char_None)
  moreover have "find_from ''+'' (TM @ sg # TZ) = Some (length TM)"
    unfolding sg using assms(2) by (rule find_from_char)
  ultimately show ?thesis by (simp add: find_sign_def)
qed

lemma parse_isoformat_time_zone:
  assumes "CHR ''-'' \<notin> set TM" "CHR ''+'' \<notin> set TM" "CHR ''-'' \<notin> set TZ"
    and "sg = CHR ''+'' \<or> sg = CHR ''-''"
    and "length TZ = 5 \<or> length TZ = 8 \<or> length TZ = 15"
    and "parse_hh_mm_ss_ff TM = Some (h, m, s, us)"
    and "parse_hh_mm_ss_ff TZ = Some (th, tm, ts, tus)"
  shows "parse_isoformat_time (TM @ sg # TZ)
         = Some (h, m, s, us,
             Some ((if sg = CHR ''-'' then - 1 else 1)
                   * int (((th * 60 + tm) * 60 + ts) * 1000000 + tus)))"
  using assms(5-7)
  by (simp add: parse_isoformat_time_def find_sign_at[OF assms(1-4)] Let_def)

lemma parse_isoformat_time_plain:
  assumes "CHR ''-'' \<notin> set TM" "CHR ''+'' \<notin> set TM"
    and "parse_hh_mm_ss_ff TM = Some (h, m, s, us)"
  shows "parse_isoformat_time TM = Some (h, m, s, us, None)"
  using assms by (simp add: parse_isoformat_time_def find_sign_def find_from_char_None)

lemma fromisoformat_parts:
  assumes "length D = 10" "parse_isoformat_date D = Some (y, mo, d)"
    and "parse_isoformat_time TS = Some (h, mi, s, us, tz)"
  shows "fromisoformat (D @ sep # TS) = make_datetime y mo d h mi s us tz"
  using assms by (simp add: fromisoformat_def)

lemma time_text:
  assumes "h < 100" "m < 100" "s < 100" "us < 1000000"
  defines "TM \<equiv> fmt_0d 2 h @ '':'' @ fmt_0d 2 m @ '':'' @ fmt_0d 2 s
                  @ (if us \<noteq> 0 then ''.'' @ fmt_0d 6 us else [])"
  shows "parse_hh_mm_ss_ff TM = Some (h, m, s, us)"
    and "CHR ''-'' \<notin> set TM" and "CHR ''+'' \<notin> set TM" and "CHR '']'' \<notin> set TM"
  using assms(1-4) parse_time_fmt_8[of h m s] parse_time_fmt_15[of h m s us]
    fmt_0d_2_plain[of h] fmt_0d_2_plain[of m] fmt_0d_2_plain[of s] fmt_0d_6_plain[of us]
  by (simp_all add: TM_def)

lemma zone_text:
  assumes "h < 100" "m < 60" "s < 60" "us < 1000000"
  defines "TZ \<equiv> fmt_0d 2 h @ '':'' @ fmt_0d 2 m
                  @ (if s \<noteq> 0 \<or> us \<noteq> 0
                     then '':'' @ fmt_0d 2 s @ (if us \<noteq> 0 then ''.'' @ fmt_0d 6 us else [])
                     else [])"
  shows "parse_hh_mm_ss_ff TZ = Some (h, m, s, us)"
    and "length TZ = 5 \<or> length TZ = 8 \<or> length TZ = 15"
    and "CHR ''-'' \<notin> set TZ" and "CHR '']'' \<notin> set TZ"
  using assms(1-4) parse_time_fmt_5[of h m] parse_time_fmt_8[of h m s]
    parse_time_fmt_15[of h m s us]
    fmt_0d_2_plain[of h] fmt_0d_2_plain[of m] fmt_0d_2_plain[of s] fmt_0d_6_plain[of us]
  by (auto simp: TZ_def)

lemma isoformat_roundtrip:
  assumes v: "valid_datetime dt"
  shows "fromisoformat (isoformat dt) = Some dt \<and> CHR '']'' \<notin> set (isoformat dt)"
proof -
  have b: "year dt < 10000" "month dt < 100" "day dt < 100" "hour dt < 100"
    "minute dt < 100" "second dt < 100" "microsecond dt < 1000000"
    using v by (auto simp: valid_datetime_def days_in_month_def split: if_splits)
  define D where "D = fmt_0d 4 (year dt) @ ''-'' @ fmt_0d 2 (month dt) @ ''-'' @ fmt_0d 2 (day dt)"
  define TM where "TM = fmt_0d 2 (hour dt) @ '':'' @ fmt_0d 2 (minute dt) @ '':''
      @ fmt_0d 2 (second dt)
      @ (if microsecond dt \<noteq> 0 then ''.'' @ fmt_0d 6 (microsecond dt) else [])"
  have pD: "parse_isoformat_date D = Some (year dt, month dt, day dt)"
    unfolding D_def using b(1-3) by (rule parse_date_fmt)
  have lD: "length D = 10" and bD: "CHR '']'' \<notin> set D"
    using fmt_0d_4_plain[OF b(1)] fmt_0d_2_plain[OF b(2)] fmt_0d_2_plain[OF b(3)]
    by (simp_all add: D_def)
  have pTM: "parse_hh_mm_ss_ff TM = Some (hour dt, minute dt, second dt, microsecond dt)"
    and mTM: "CHR ''-'' \<notin> set TM" and qTM: "CHR ''+'' \<notin> set TM"
    and bTM: "CHR '']'' \<notin> set TM"
    unfolding TM_def using b(4-7) by (rule time_text)+
  show ?thesis
  proof (cases "tzinfo dt")
    case None
    have iso: "isoformat dt = D @ CHR ''T'' # TM"
      by (simp add: isoformat_def D_def TM_def None)
    have "fromisoformat (isoformat dt)
        = make_datetime (year dt) (month dt) (day dt) (hour dt) (minute dt) (second dt)
            (microsecond dt) None"
      unfolding iso using lD pD parse_isoformat_time_plain[OF mTM qTM pTM]
      by (rule fromisoformat_parts)
    also have "\<dots> = Some dt"
      using v None by (cases dt) (simp add: make_datetime_def)
    finally show ?thesis using bD bTM by (simp add: iso)
  next
    case (Some off)
    define a where "a = nat \<bar>off\<bar>"
    define hh where "hh = a div 3600000000"
    define mm where "mm = (a div 60000000) mod 60"
    define ss where "ss = (a div 1000000) mod 60"
    define us where "us = a mod 1000000"
    define sg where "sg = (if off < 0 then CHR ''-'' else CHR ''+'')"
    define TZ where "TZ = fmt_0d 2 hh @ '':'' @ fmt_0d 2 mm
        @ (if ss \<noteq> 0 \<or> us \<noteq> 0
           then '':'' @ fmt_0d 2 ss @ (if us \<noteq> 0 then ''.'' @ fmt_0d 6 us else [])
           else [])"
    have ra: "a < 86400000000"
    proof -
      have "- 86400000000 < off \<and> off < 86400000000"
        using v Some by (simp add: valid_datetime_def)
      then show ?thesis unfolding a_def by linarith
    qed
    have r: "hh < 100" "mm < 60" "ss < 60" "us < 1000000"
      using ra by (simp_all add: hh_def mm_def ss_def us_def)
    have pTZ: "parse_hh_mm_ss_ff TZ = Some (hh, mm, ss, us)"
      and lTZ: "length TZ = 5 \<or> length TZ = 8 \<or> length TZ = 15"
      and mTZ: "CHR ''-'' \<notin> set TZ" and bTZ: "CHR '']'' \<notin> set TZ"
      unfolding TZ_def using r by (rule zone_text)+
    have sg: "sg = CHR ''+'' \<or> sg = CHR ''-''" by (simp add: sg_def)
    have iso: "isoformat dt = D @ CHR ''T'' # (TM @ sg # TZ)"
      by (simp add: isoformat_def format_offset_def Let_def D_def TM_def TZ_def Some sg_def
            a_def hh_def mm_def ss_def us_def)
    have "((hh * 60 + mm) * 60 + ss) * 1000000 + us = a"
      unfolding hh_def mm_def ss_def us_def by (rule offset_parts)
    then have o: "(if sg = CHR ''-'' then - 1 else 1)
        * int (((hh * 60 + mm) * 60 + ss) * 1000000 + us) = off"
      by (simp add: sg_def a_def)
    have "fromisoformat (isoformat dt)
        = make_datetime (year dt) (month dt) (day dt) (hour dt) (minute dt) (second dt)
            (microsecond dt) (Some off)"
      unfolding iso
      using lD pD parse_isoformat_time_zone[OF mTM qTM mTZ sg lTZ pTM pTZ, unfolded o]
      by (rule fromisoformat_parts)
    also have "\<dots> = Some dt"
      using v Some by (cases dt) (simp add: make_datetime_def)
    finally show ?thesis using bD bTM bTZ sg by (auto simp: iso)
  qed
qed

text \<open>
  Claim C2, as amended. The topic that \<open>new_article\<close> writes for a title and a valid
  deadline decodes to that deadline, provided the tag written by the encoder is the first
  occurrence of the tag in the topic, that is, the text "Article: ", the title and " | "
  followed by the first ten characters of the tag do not contain the tag.
\<close>

theorem deadline_roundtrip:
  assumes "valid_datetime T"
    and "\<not> sublist DEADLINE_TAG (''Article: '' @ S @ '' | '' @ butlast DEADLINE_TAG)"
  shows "extract_deadline_from_topic (Some (article_topic S T)) = Some T"
proof -
  have rt: "fromisoformat (isoformat T) = Some T" and nb: "CHR '']'' \<notin> set (isoformat T)"
    using isoformat_roundtrip[OF assms(1)] by simp_all
  have "extract_deadline_from_topic
          (Some ((''Article: '' @ S @ '' | '') @ DEADLINE_TAG @ isoformat T @ CHR '']'' # []))
        = fromisoformat (isoformat T)"
    using assms(2) nb by (intro extract_first_tag) simp_all
  then show ?thesis
    by (simp add: article_topic_def rt)
qed

theorem deadline_roundtrip_witness:
  "valid_datetime \<lparr>year = 2025, month = 9, day = 7, hour = 23, minute = 0, second = 0,
                   microsecond = 0, tzinfo = None\<rparr>
   \<and> \<not> sublist DEADLINE_TAG (''Article: '' @ ''Q3 Budget Review'' @ '' | '' @ butlast DEADLINE_TAG)
   \<and> extract_deadline_from_topic
       (Some (article_topic ''Q3 Budget Review''
          \<lparr>year = 2025, month = 9, day = 7, hour = 23, minute = 0, second = 0,
           microsecond = 0, tzinfo = None\<rparr>))
     = Some \<lparr>year = 2025, month = 9, day = 7, hour = 23, minute = 0, second = 0,
             microsecond = 0, tzinfo = None\<rparr>"
proof -
  have v: "valid_datetime \<lparr>year = 2025, month = 9, day = 7, hour = 23, minute = 0, second = 0,
                   microsecond = 0, tzinfo = None\<rparr>"
    by (simp add: valid_datetime_def days_in_month_def)
  have n: "\<not> sublist DEADLINE_TAG
             (''Article: '' @ ''Q3 Budget Review'' @ '' | '' @ butlast DEADLINE_TAG)"
    by (simp add: DEADLINE_TAG_def find_from_None_iff[symmetric])
  show ?thesis
    using v n deadline_roundtrip[OF v n] by simp
qed

text \<open>
  The claim as stated, for every title, fails: a title that contains the tag is found
  first, and the text after it is not the encoder's timestamp.
\<close>

theorem deadline_roundtrip_counterexample:
  "valid_datetime \<lparr>year = 2025, month = 9, day = 7, hour = 23, minute = 0, second = 0,
                   microsecond = 0, tzinfo = None\<rparr>
   \<and> extract_deadline_from_topic
       (Some (article_topic ''[deadline: x]''
          \<lparr>year = 2025, month = 9, day = 7, hour = 23, minute = 0, second = 0,
           microsecond = 0, tzinfo = None\<rparr>))
     = None"
  by (simp add: valid_datetime_def days_in_month_def extract_deadline_from_topic_def
        article_topic_def DEADLINE_TAG_def str_in_def str_find_def fromisoformat_def)

text \<open>
  A title without an opening bracket cannot bring the tag in, so the round trip holds for
  every such title.
\<close>

lemma split_unique:
  "x \<notin> set ys \<Longrightarrow> x \<notin> set zs \<Longrightarrow> ps @ x # r = ys @ x # zs \<Longrightarrow> r = zs"
proof (induction ps arbitrary: ys)
  case Nil
  then show ?case by (cases ys) auto
next
  case (Cons p ps)
  show ?case
  proof (cases ys)
    case Nil
    with Cons.prems have "x \<in> set zs" by auto
    with Cons.prems show ?thesis by simp
  next
    case (Cons y ys')
    with Cons.prems Cons.IH[of ys'] show ?thesis by auto
  qed
qed

lemma title_without_bracket:
  assumes "CHR ''['' \<notin> set S"
  shows "\<not> sublist DEADLINE_TAG (''Article: '' @ S @ '' | '' @ butlast DEADLINE_TAG)"
proof
  assume "sublist DEADLINE_TAG (''Article: '' @ S @ '' | '' @ butlast DEADLINE_TAG)"
  then obtain ps ss where
    e: "''Article: '' @ S @ '' | '' @ butlast DEADLINE_TAG = ps @ DEADLINE_TAG @ ss"
    by (auto simp: sublist_def)
  have "ps @ CHR ''['' # (''deadline: '' @ ss) = (''Article: '' @ S @ '' | '') @ CHR ''['' # ''deadline:''"
    using e by (simp add: DEADLINE_TAG_def)
  moreover have "CHR ''['' \<notin> set (''Article: '' @ S @ '' | '')" using assms by simp
  moreover have "CHR ''['' \<notin> set ''deadline:''" by simp
  ultimately have "''deadline: '' @ ss = ''deadline:''"
    by (intro split_unique[of "CHR ''[''" "''Article: '' @ S @ '' | ''" "''deadline:''" ps]) auto
  then have "length (''deadline: '' @ ss) = length ''deadline:''" by (rule arg_cong)
  then show False by simp
qed

text \<open>
  Claim C9. Decoding returns no deadline, and raises nothing, for an absent or empty
  topic, for a topic without the tag, for a topic whose first tag has no closing bracket
  after it, and for a topic whose text between the first tag and the next closing bracket
  is not a timestamp that \<open>fromisoformat\<close> reads.
\<close>

theorem extract_deadline_absent:
  "extract_deadline_from_topic None = None
   \<and> extract_deadline_from_topic (Some []) = None
   \<and> (\<not> sublist DEADLINE_TAG t \<longrightarrow> extract_deadline_from_topic (Some t) = None)
   \<and> (\<not> sublist DEADLINE_TAG (pre @ butlast DEADLINE_TAG) \<longrightarrow> CHR '']'' \<notin> set rest \<longrightarrow>
        extract_deadline_from_topic (Some (pre @ DEADLINE_TAG @ rest)) = None)
   \<and> (\<not> sublist DEADLINE_TAG (pre @ butlast DEADLINE_TAG) \<longrightarrow> CHR '']'' \<notin> set mid \<longrightarrow>
        fromisoformat mid = None \<longrightarrow>
        extract_deadline_from_topic (Some (pre @ DEADLINE_TAG @ mid @ CHR '']'' # rest')) = None)"
  by (simp add: extract_no_tag extract_no_bracket extract_first_tag)
     (simp add: extract_deadline_from_topic_def)

theorem extract_deadline_absent_witness:
  "\<not> sublist DEADLINE_TAG ''Article: Q3''
   \<and> extract_deadline_from_topic (Some ''Article: Q3'') = None
   \<and> \<not> sublist DEADLINE_TAG (''Article: Q3 | '' @ butlast DEADLINE_TAG)
   \<and> CHR '']'' \<notin> set ''2025-09-07T23:00:00''
   \<and> extract_deadline_from_topic
       (Some (''Article: Q3 | '' @ DEADLINE_TAG @ ''2025-09-07T23:00:00'')) = None
   \<and> CHR '']'' \<notin> set ''next Friday''
   \<and> fromisoformat ''next Friday'' = None
   \<and> extract_deadline_from_topic
       (Some (''Article: Q3 | '' @ DEADLINE_TAG @ ''next Friday'' @ CHR '']'' # '' (tbc)''))
     = None"
proof -
  have a: "\<not> sublist DEADLINE_TAG ''Article: Q3''"
    by (simp add: DEADLINE_TAG_def find_from_None_iff[symmetric])
  have b: "\<not> sublist DEADLINE_TAG (''Article: Q3 | '' @ butlast DEADLINE_TAG)"
    by (simp add: DEADLINE_TAG_def find_from_None_iff[symmetric])
  have c: "fromisoformat ''next Friday'' = None"
    by (simp add: fromisoformat_def parse_isoformat_date_def)
  show ?thesis
    using a b c
      extract_deadline_absent[of "''Article: Q3''" "''Article: Q3 | ''" "''2025-09-07T23:00:00''"
        "''next Friday''" "'' (tbc)''"]
    by simp
qed

section \<open>Properties of parse_when\<close>

lemmas re_defs = re_Y_def re_m_def re_d_def re_H_def re_M_def re_b_def re_ws_def step_def
  two_digits_def one_digit_def digit_of_def isdigit_def isspace_def lower_def
  month_abbr_def directive_of_def

lemma compile_formats:
  "compile_format ''%Y-%m-%d %H:%M'' = Some [DY, Lit CHR ''-'', Dm, Lit CHR ''-'', Dd, WS, DH, Lit CHR '':'', DM]"
  "compile_format ''%Y-%m-%d'' = Some [DY, Lit CHR ''-'', Dm, Lit CHR ''-'', Dd]"
  "compile_format ''%b %d %Y %H:%M'' = Some [Db, WS, Dd, WS, DY, WS, DH, Lit CHR '':'', DM]"
  "compile_format ''%b %d %H:%M'' = Some [Db, WS, Dd, WS, DH, Lit CHR '':'', DM]"
  by (simp_all add: directive_of_def isspace_def)

lemma strptime_example_1: "strptime ''2025-09-07 23:00'' ''%Y-%m-%d %H:%M'' = Some \<lparr>year = 2025, month = 9, day = 7, hour = 23, minute = 0, second = 0, microsecond = 0, tzinfo = None\<rparr>"
  by (simp add: strptime_def compile_formats re_defs make_datetime_def valid_datetime_def days_in_month_def)

lemma strptime_example_2a: "strptime ''2025-09-07'' ''%Y-%m-%d %H:%M'' = None"
  by (simp add: strptime_def compile_formats re_defs)

lemma strptime_example_2: "strptime ''2025-09-07'' ''%Y-%m-%d'' = Some \<lparr>year = 2025, month = 9, day = 7, hour = 0, minute = 0, second = 0, microsecond = 0, tzinfo = None\<rparr>"
  by (simp add: strptime_def compile_formats re_defs make_datetime_def valid_datetime_def days_in_month_def)

lemma strptime_example_3: "strptime ''Sep 7 23:00'' ''%Y-%m-%d %H:%M'' = None"
  "strptime ''Sep 7 23:00'' ''%Y-%m-%d'' = None"
  "strptime ''Sep 7 23:00'' ''%b %d %Y %H:%M'' = None"
  "strptime ''Sep 7 23:00'' ''%b %d %H:%M'' = Some \<lparr>year = 1900, month = 9, day = 7, hour = 23, minute = 0, second = 0, microsecond = 0, tzinfo = None\<rparr>"
  by (simp_all add: strptime_def compile_formats re_defs make_datetime_def valid_datetime_def days_in_month_def is_leap_def)

lemma strptime_example_4: "strptime ''not a date'' ''%Y-%m-%d %H:%M'' = None"
  "strptime ''not a date'' ''%Y-%m-%d'' = None"
  "strptime ''not a date'' ''%b %d %Y %H:%M'' = None"
  "strptime ''not a date'' ''%b %d %H:%M'' = None"
  by (simp_all add: strptime_def compile_formats re_defs)

lemma step_keeps_year:
  "d \<noteq> DY \<Longrightarrow> (f', r) \<in> set (step d s f) \<Longrightarrow> f_year f' = f_year f"
  by (cases d) (auto simp: step_def split: list.splits if_splits)

lemma re_match_keeps_year:
  "DY \<notin> set ds \<Longrightarrow> (f', r) \<in> set (re_match ds s f) \<Longrightarrow> f_year f' = f_year f"
proof (induction ds arbitrary: s f)
  case Nil
  then show ?case by simp
next
  case (Cons d ds)
  from Cons.prems(2) obtain f1 r1 where
    a: "(f1, r1) \<in> set (step d s f)" and b: "(f', r) \<in> set (re_match ds r1 f1)"
    by auto
  have "f_year f1 = f_year f" using a Cons.prems(1) by (intro step_keeps_year[of d]) auto
  moreover have "f_year f' = f_year f1" using b Cons.prems(1) by (intro Cons.IH) auto
  ultimately show ?case by simp
qed

lemma strptime_no_year:
  assumes "strptime s ''%b %d %H:%M'' = Some dt"
  shows "year dt = 1900 \<and> valid_datetime dt"
proof -
  let ?ds = "[Db, WS, Dd, WS, DH, Lit CHR '':'', DM]"
  let ?f0 = "\<lparr>f_year = None, f_month = 1, f_day = 1, f_hour = 0, f_minute = 0\<rparr>"
  have c: "compile_format ''%b %d %H:%M'' = Some ?ds" by (rule compile_formats(4))
  have e: "(case re_match ?ds s ?f0 of
             [] \<Rightarrow> None
           | (f, r) # other \<Rightarrow>
               if r \<noteq> [] then None
               else make_datetime (case f_year f of None \<Rightarrow> 1900 | Some y \<Rightarrow> y)
                      (f_month f) (f_day f) (f_hour f) (f_minute f) 0 0 None) = Some dt"
    using assms by (simp only: strptime_def c option.case)
  show ?thesis
  proof (cases "re_match ?ds s ?f0")
    case Nil
    with e show ?thesis by (simp only: list.case) simp
  next
    case (Cons p other)
    obtain f r where p: "p = (f, r)" by (cases p)
    have "(f, r) \<in> set (re_match ?ds s ?f0)" unfolding Cons p by simp
    then have "f_year f = f_year ?f0" by (intro re_match_keeps_year[of ?ds]) auto
    then have y: "f_year f = None" by simp
    have "(if r \<noteq> [] then None
           else make_datetime 1900 (f_month f) (f_day f) (f_hour f) (f_minute f) 0 0 None)
          = Some dt"
      using e unfolding Cons p by (simp only: list.case prod.case y option.case)
    then show ?thesis
      by (auto simp: make_datetime_def Let_def split: if_splits)
  qed
qed

lemma replace_year_valid:
  assumes "valid_datetime dt" "year dt = 1900" "1 \<le> y" "y \<le> 9999"
  shows "replace_year dt y = Some (dt\<lparr>year := y\<rparr>)"
proof -
  have "days_in_month 1900 (month dt) \<le> days_in_month y (month dt)"
    by (simp add: days_in_month_def is_leap_def)
  then have "valid_datetime (dt\<lparr>year := y\<rparr>)"
    using assms by (auto simp: valid_datetime_def)
  then show ?thesis
    by (cases dt) (simp add: replace_year_def make_datetime_def)
qed

lemma str_in_Y:
  "str_in ''%Y'' ''%Y-%m-%d %H:%M''" "str_in ''%Y'' ''%Y-%m-%d''"
  "str_in ''%Y'' ''%b %d %Y %H:%M''" "\<not> str_in ''%Y'' ''%b %d %H:%M''"
  by (simp_all add: str_in_def)

lemma strip_examples:
  "strip ''2025-09-07 23:00'' = ''2025-09-07 23:00''" "strip ''2025-09-07'' = ''2025-09-07''"
  "strip ''Sep 7 23:00'' = ''Sep 7 23:00''" "strip ''not a date'' = ''not a date''"
  by (simp_all add: strip_def isspace_def)


text \<open>
  Claim C6. \<open>parse_when\<close> tries the four formats in their order on the stripped text and
  returns the result of the first that parses; for the last format, which has no year, the
  year of the current date replaces 1900; when no format parses it returns nothing. It is
  a total function: every ValueError of the library is caught by the loop. The four
  examples of the specification evaluate as stated.
\<close>

theorem parse_when_formats:
  "(\<forall>dt. strptime (strip s) ''%Y-%m-%d %H:%M'' = Some dt \<longrightarrow> parse_when now s = Some dt)
   \<and> (\<forall>dt. strptime (strip s) ''%Y-%m-%d %H:%M'' = None \<longrightarrow>
          strptime (strip s) ''%Y-%m-%d'' = Some dt \<longrightarrow> parse_when now s = Some dt)
   \<and> (\<forall>dt. strptime (strip s) ''%Y-%m-%d %H:%M'' = None \<longrightarrow>
          strptime (strip s) ''%Y-%m-%d'' = None \<longrightarrow>
          strptime (strip s) ''%b %d %Y %H:%M'' = Some dt \<longrightarrow> parse_when now s = Some dt)
   \<and> (\<forall>dt. strptime (strip s) ''%Y-%m-%d %H:%M'' = None \<longrightarrow>
          strptime (strip s) ''%Y-%m-%d'' = None \<longrightarrow>
          strptime (strip s) ''%b %d %Y %H:%M'' = None \<longrightarrow>
          strptime (strip s) ''%b %d %H:%M'' = Some dt \<longrightarrow> valid_datetime now \<longrightarrow>
          parse_when now s = Some (dt\<lparr>year := year now\<rparr>))
   \<and> (strptime (strip s) ''%Y-%m-%d %H:%M'' = None \<longrightarrow>
        strptime (strip s) ''%Y-%m-%d'' = None \<longrightarrow>
        strptime (strip s) ''%b %d %Y %H:%M'' = None \<longrightarrow>
        strptime (strip s) ''%b %d %H:%M'' = None \<longrightarrow> parse_when now s = None)
   \<and> parse_when now ''2025-09-07 23:00''
       = Some \<lparr>year = 2025, month = 9, day = 7, hour = 23, minute = 0, second = 0,
               microsecond = 0, tzinfo = None\<rparr>
   \<and> parse_when now ''2025-09-07''
       = Some \<lparr>year = 2025, month = 9, day = 7, hour = 0, minute = 0, second = 0,
               microsecond = 0, tzinfo = None\<rparr>
   \<and> (valid_datetime now \<longrightarrow>
        parse_when now ''Sep 7 23:00''
        = Some \<lparr>year = year now, month = 9, day = 7, hour = 23, minute = 0, second = 0,
                microsecond = 0, tzinfo = None\<rparr>)
   \<and> parse_when now ''not a date'' = None"
proof -
  have y: "valid_datetime now \<Longrightarrow> 1 \<le> year now \<and> year now \<le> 9999"
    by (simp add: valid_datetime_def)
  have last: "strptime t ''%b %d %H:%M'' = Some dt \<Longrightarrow> valid_datetime now \<Longrightarrow>
      replace_year dt (year now) = Some (dt\<lparr>year := year now\<rparr>)" for t dt
    using strptime_no_year[of t dt] y by (simp add: replace_year_valid)
  have general: "parse_when now s =
      (case strptime (strip s) ''%Y-%m-%d %H:%M'' of
         Some dt \<Rightarrow> Some dt
       | None \<Rightarrow>
          (case strptime (strip s) ''%Y-%m-%d'' of
             Some dt \<Rightarrow> Some dt
           | None \<Rightarrow>
              (case strptime (strip s) ''%b %d %Y %H:%M'' of
                 Some dt \<Rightarrow> Some dt
               | None \<Rightarrow>
                  (case strptime (strip s) ''%b %d %H:%M'' of
                     Some dt \<Rightarrow> replace_year dt (year now)
                   | None \<Rightarrow> None))))" for s
    by (simp add: parse_when_def DATE_FORMATS_def str_in_Y split: option.splits)
  have e3: "valid_datetime now \<Longrightarrow>
      parse_when now ''Sep 7 23:00''
      = Some \<lparr>year = year now, month = 9, day = 7, hour = 23, minute = 0, second = 0,
              microsecond = 0, tzinfo = None\<rparr>"
    using last[OF strptime_example_3(4)]
    by (simp add: general strip_examples strptime_example_3)
  show ?thesis
    by (simp add: e3)
       (simp add: general last strip_examples strptime_example_1 strptime_example_2a
          strptime_example_2 strptime_example_4)
qed

theorem parse_when_formats_witness:
  "strptime (strip '' sep  07 23:5 '') ''%Y-%m-%d %H:%M'' = None
   \<and> strptime (strip '' sep  07 23:5 '') ''%Y-%m-%d'' = None
   \<and> strptime (strip '' sep  07 23:5 '') ''%b %d %Y %H:%M'' = None
   \<and> strptime (strip '' sep  07 23:5 '') ''%b %d %H:%M''
       = Some \<lparr>year = 1900, month = 9, day = 7, hour = 23, minute = 5, second = 0,
               microsecond = 0, tzinfo = None\<rparr>
   \<and> valid_datetime \<lparr>year = 2026, month = 11, day = 3, hour = 12, minute = 30, second = 15,
                     microsecond = 250000, tzinfo = None\<rparr>
   \<and> parse_when \<lparr>year = 2026, month = 11, day = 3, hour = 12, minute = 30, second = 15,
                  microsecond = 250000, tzinfo = None\<rparr> '' sep  07 23:5 ''
       = Some \<lparr>year = 2026, month = 9, day = 7, hour = 23, minute = 5, second = 0,
               microsecond = 0, tzinfo = None\<rparr>
   \<and> parse_when \<lparr>year = 2026, month = 11, day = 3, hour = 12, minute = 30, second = 15,
                  microsecond = 250000, tzinfo = None\<rparr> ''Sep 7 23:00''
       = Some \<lparr>year = 2026, month = 9, day = 7, hour = 23, minute = 0, second = 0,
               microsecond = 0, tzinfo = None\<rparr>"
proof -
  have s: "strip '' sep  07 23:5 '' = ''sep  07 23:5''"
    by (simp add: strip_def isspace_def)
  have a: "strptime ''sep  07 23:5'' ''%Y-%m-%d %H:%M'' = None"
    "strptime ''sep  07 23:5'' ''%Y-%m-%d'' = None"
    "strptime ''sep  07 23:5'' ''%b %d %Y %H:%M'' = None"
    "strptime ''sep  07 23:5'' ''%b %d %H:%M''
       = Some \<lparr>year = 1900, month = 9, day = 7, hour = 23, minute = 5, second = 0,
               microsecond = 0, tzinfo = None\<rparr>"
    by (simp_all add: strptime_def compile_formats re_defs make_datetime_def
          valid_datetime_def days_in_month_def is_leap_def)
  have v: "valid_datetime \<lparr>year = 2026, month = 11, day = 3, hour = 12, minute = 30,
             second = 15, microsecond = 250000, tzinfo = None\<rparr>"
    by (simp add: valid_datetime_def days_in_month_def)
  show ?thesis
    using v a
      parse_when_formats[of "'' sep  07 23:5 ''"
        "\<lparr>year = 2026, month = 11, day = 3, hour = 12, minute = 30, second = 15,
          microsecond = 250000, tzinfo = None\<rparr>"]
    by (simp add: s)
qed

section \<open>Properties of slugify\<close>

lemma lower_not_upper: "\<not> isupper (lower c)"
proof (cases "isupper c")
  case True
  then show ?thesis by (auto simp: isupper_def lower_def)
next
  case False
  then have "map_of (zip ''ABCDEFGHIJKLMNOPQRSTUVWXYZ'' ''abcdefghijklmnopqrstuvwxyz'') c = None"
    by (simp add: isupper_def)
  then show ?thesis using False by (simp add: lower_def)
qed

lemma set_replace_dashes: "set (replace_dashes s) \<subseteq> set s"
  by (induction s rule: replace_dashes.induct) auto

lemma set_collapse_dashes: "set (collapse_dashes s) \<subseteq> set s"
proof (induction s rule: collapse_dashes.induct)
  case (1 s)
  show ?case
  proof (cases "str_in ''--'' s")
    case True
    then have "collapse_dashes s = collapse_dashes (replace_dashes s)"
      by (subst collapse_dashes.simps) simp
    then show ?thesis using 1[OF True] set_replace_dashes[of s] by auto
  next
    case False
    then show ?thesis by (subst collapse_dashes.simps) simp
  qed
qed

lemma collapse_dashes_no_pair: "\<not> str_in ''--'' (collapse_dashes s)"
proof (induction s rule: collapse_dashes.induct)
  case (1 s)
  show ?case
  proof (cases "str_in ''--'' s")
    case True
    then have "collapse_dashes s = collapse_dashes (replace_dashes s)"
      by (subst collapse_dashes.simps) simp
    then show ?thesis using 1[OF True] by simp
  next
    case False
    then show ?thesis by (subst collapse_dashes.simps) simp
  qed
qed

lemma replace_dashes_ends:
  "s \<noteq> [] \<Longrightarrow> hd s \<noteq> CHR ''-'' \<Longrightarrow> replace_dashes s \<noteq> [] \<and> hd (replace_dashes s) = hd s"
  by (induction s rule: replace_dashes.induct) auto

lemma replace_dashes_last:
  "s \<noteq> [] \<Longrightarrow> last s \<noteq> CHR ''-'' \<Longrightarrow> replace_dashes s \<noteq> [] \<and> last (replace_dashes s) = last s"
  by (induction s rule: replace_dashes.induct) (auto split: if_splits)

lemma collapse_dashes_ends:
  "s \<noteq> [] \<Longrightarrow> hd s \<noteq> CHR ''-'' \<Longrightarrow> collapse_dashes s \<noteq> [] \<and> hd (collapse_dashes s) = hd s"
proof (induction s rule: collapse_dashes.induct)
  case (1 s)
  show ?case
  proof (cases "str_in ''--'' s")
    case True
    then have e: "collapse_dashes s = collapse_dashes (replace_dashes s)"
      by (subst collapse_dashes.simps) simp
    have r: "replace_dashes s \<noteq> [] \<and> hd (replace_dashes s) = hd s"
      using 1(2,3) by (rule replace_dashes_ends)
    have h: "hd (replace_dashes s) \<noteq> CHR ''-''"
      using r[THEN conjunct2] 1(3) by (rule ssubst)
    have ih: "collapse_dashes (replace_dashes s) \<noteq> []
        \<and> hd (collapse_dashes (replace_dashes s)) = hd (replace_dashes s)"
      using True r[THEN conjunct1] h by (rule 1(1))
    show ?thesis
    proof
      show "collapse_dashes s \<noteq> []" unfolding e using ih by (rule conjunct1)
      show "hd (collapse_dashes s) = hd s"
        unfolding e using ih[THEN conjunct2] r[THEN conjunct2] by (rule trans)
    qed
  next
    case False
    then have "collapse_dashes s = s" by (subst collapse_dashes.simps) simp
    then show ?thesis using 1(2) by (simp only:) simp
  qed
qed

lemma collapse_dashes_last:
  "s \<noteq> [] \<Longrightarrow> last s \<noteq> CHR ''-'' \<Longrightarrow> collapse_dashes s \<noteq> [] \<and> last (collapse_dashes s) = last s"
proof (induction s rule: collapse_dashes.induct)
  case (1 s)
  show ?case
  proof (cases "str_in ''--'' s")
    case True
    then have e: "collapse_dashes s = collapse_dashes (replace_dashes s)"
      by (subst collapse_dashes.simps) simp
    have r: "replace_dashes s \<noteq> [] \<and> last (replace_dashes s) = last s"
      using 1(2,3) by (rule replace_dashes_last)
    have h: "last (replace_dashes s) \<noteq> CHR ''-''"
      using r[THEN conjunct2] 1(3) by (rule ssubst)
    have ih: "collapse_dashes (replace_dashes s) \<noteq> []
        \<and> last (collapse_dashes (replace_dashes s)) = last (replace_dashes s)"
      using True r[THEN conjunct1] h by (rule 1(1))
    show ?thesis
    proof
      show "collapse_dashes s \<noteq> []" unfolding e using ih by (rule conjunct1)
      show "last (collapse_dashes s) = last s"
        unfolding e using ih[THEN conjunct2] r[THEN conjunct2] by (rule trans)
    qed
  next
    case False
    then have "collapse_dashes s = s" by (subst collapse_dashes.simps) simp
    then show ?thesis using 1(2) by (simp only:) simp
  qed
qed

lemma rstrip_prefix: "rev (dropWhile P (rev xs)) @ rev (takeWhile P (rev xs)) = xs"
proof -
  have "rev (takeWhile P (rev xs) @ dropWhile P (rev xs)) = xs" by simp
  then show ?thesis by (simp only: rev_append)
qed

lemma hd_of_prefix: "xs \<noteq> [] \<Longrightarrow> ys = xs @ t \<Longrightarrow> hd ys = hd xs"
  by simp


lemma strip_chars_hd:
  assumes "strip_chars chars s \<noteq> []"
  shows "hd (strip_chars chars s) \<notin> set chars"
proof -
  let ?P = "\<lambda>c. c \<in> set chars"
  let ?d = "dropWhile ?P s"
  have p: "?d = strip_chars chars s @ rev (takeWhile ?P (rev ?d))"
    unfolding strip_chars_def by (rule rstrip_prefix[symmetric])
  have d: "?d \<noteq> []"
  proof
    assume e: "?d = []"
    have "strip_chars chars s = []" unfolding strip_chars_def e by simp
    then show False using assms by simp
  qed
  have "hd ?d = hd (strip_chars chars s)"
    using assms p by (rule hd_of_prefix)
  moreover have "\<not> ?P (hd ?d)" using d by (rule hd_dropWhile)
  ultimately show ?thesis by simp
qed


lemma strip_chars_last:
  assumes "strip_chars chars s \<noteq> []"
  shows "last (strip_chars chars s) \<notin> set chars"
proof -
  let ?P = "\<lambda>c. c \<in> set chars"
  let ?r = "dropWhile ?P (rev (dropWhile ?P s))"
  have ne: "?r \<noteq> []" using assms by (simp add: strip_chars_def)
  then have "\<not> ?P (hd ?r)" by (rule hd_dropWhile)
  moreover have "last (strip_chars chars s) = hd ?r"
    using ne by (simp add: strip_chars_def last_rev)
  ultimately show ?thesis by simp
qed

lemma set_strip_chars: "set (strip_chars chars s) \<subseteq> set s"
proof
  fix x assume "x \<in> set (strip_chars chars s)"
  then have "x \<in> set (dropWhile (\<lambda>c. c \<in> set chars) (rev (dropWhile (\<lambda>c. c \<in> set chars) s)))"
    by (simp add: strip_chars_def)
  then have "x \<in> set (rev (dropWhile (\<lambda>c. c \<in> set chars) s))" by (rule set_dropWhileD)
  then have "x \<in> set (dropWhile (\<lambda>c. c \<in> set chars) s)" by simp
  then show "x \<in> set s" by (rule set_dropWhileD)
qed


lemma collapse_dashes_Nil: "collapse_dashes [] = []"
  by (subst collapse_dashes.simps) (simp add: str_in_def)

text \<open>
  What holds of every slug: it has at most 90 characters, no two separators in a row, is
  not empty, does not start with a separator and has no upper-case letter; it is
  "article" when nothing is left of the title after stripping; and it does not end with a
  separator as long as the collapsed text fits in 90 characters.
\<close>

lemma slugify_properties:
  "length (slugify title) \<le> 90
   \<and> \<not> sublist ''--'' (slugify title)
   \<and> slugify title \<noteq> []
   \<and> hd (slugify title) \<noteq> CHR ''-''
   \<and> (\<forall>c \<in> set (slugify title). \<not> isupper c)
   \<and> (strip_chars ''-'' (concat (map (\<lambda>ch. if isalnum ch then [lower ch] else ''-'') title)) = []
        \<longrightarrow> slugify title = ''article'')
   \<and> (length (collapse_dashes
          (strip_chars ''-'' (concat (map (\<lambda>ch. if isalnum ch then [lower ch] else ''-'') title))))
        \<le> 90 \<longrightarrow> last (slugify title) \<noteq> CHR ''-'')"
proof -
  let ?n = "concat (map (\<lambda>ch. if isalnum ch then [lower ch] else ''-'') title)"
  let ?s1 = "strip_chars ''-'' ?n"
  let ?s2 = "collapse_dashes ?s1"
  have slug: "slugify title = (if ?s2 \<noteq> [] then take 90 ?s2 else ''article'')"
    by (simp only: slugify_def Let_def)
  have dash: "\<not> isupper CHR ''-''"
    by (simp add: isupper_def)
  have chars_n: "\<forall>c \<in> set ?n. \<not> isupper c"
    by (auto simp: lower_not_upper dash split: if_splits)
  show ?thesis
  proof (cases "?s1 = []")
    case True
    then have "?s2 = []" by (simp only: collapse_dashes_Nil)
    then have "slugify title = ''article''" by (simp only: slug) simp
    then show ?thesis
      by (simp add: isupper_def find_from_None_iff[symmetric])
  next
    case False
    have h1: "hd ?s1 \<noteq> CHR ''-''" using strip_chars_hd[OF False] by simp
    have l1: "last ?s1 \<noteq> CHR ''-''" using strip_chars_last[OF False] by simp
    have e2: "?s2 \<noteq> [] \<and> hd ?s2 = hd ?s1" using False h1 by (rule collapse_dashes_ends)
    have f2: "?s2 \<noteq> [] \<and> last ?s2 = last ?s1" using False l1 by (rule collapse_dashes_last)
    have s: "slugify title = take 90 ?s2" using e2 by (simp only: slug) simp
    have np: "\<not> sublist ''--'' ?s2"
      using collapse_dashes_no_pair[of ?s1] by (simp add: str_in_def find_from_None_iff)
    have a: "\<not> sublist ''--'' (take 90 ?s2)"
    proof
      assume "sublist ''--'' (take 90 ?s2)"
      moreover have "sublist (take 90 ?s2) ?s2" by (rule sublist_take)
      ultimately have "sublist ''--'' ?s2" by (rule sublist_order.order.trans)
      then show False using np by simp
    qed
    have sub: "set (take 90 ?s2) \<subseteq> set ?n"
      using set_take_subset[of 90 ?s2] set_collapse_dashes[of ?s1] set_strip_chars[of "''-''" ?n]
      by blast
    have c: "\<forall>c \<in> set (take 90 ?s2). \<not> isupper c" using sub chars_n by blast
    have ne: "take 90 ?s2 \<noteq> []" using e2 by simp
    have h: "hd (take 90 ?s2) \<noteq> CHR ''-''" using e2 h1 by simp
    have l: "length ?s2 \<le> 90 \<longrightarrow> last (take 90 ?s2) \<noteq> CHR ''-''" using f2 l1 by simp
    show ?thesis
      unfolding s using a c ne h l False by simp
  qed
qed

text \<open>
  Claim C5, at an input where the code departs from it. The title made of 89 letters
  \<open>a\<close>, a space and a letter \<open>b\<close> normalises to 89 letters, a separator and \<open>b\<close>: 91
  characters, with nothing to strip and nothing to collapse. Line 62 then cuts the slug
  to 90 characters, after the separators at the ends were stripped on line 59, so the slug
  returned ends with the separator.
\<close>

theorem slugify_truncation_leaves_separator:
  "slugify (replicate 89 (CHR ''a'') @ '' b'') = replicate 89 (CHR ''a'') @ ''-''
   \<and> length (slugify (replicate 89 (CHR ''a'') @ '' b'')) = 90
   \<and> last (slugify (replicate 89 (CHR ''a'') @ '' b'')) = CHR ''-''"
  by code_simp

section \<open>Properties of the commands and of the sweeper\<close>

lemmas platform_defs = ensure_categories_def create_category_def create_text_channel_def
  edit_channel_def send_message_def get_member_def fetch_member_def handle_def
  default_config_def Let_def

lemmas codec_defs = extract_deadline_from_topic_def DEADLINE_TAG_def str_in_def str_find_def
  fromisoformat_def parse_isoformat_date_def parse_isoformat_time_def parse_hh_mm_ss_ff_def
  find_sign_def parse_digits_def isdigit_def make_datetime_def valid_datetime_def
  days_in_month_def is_leap_def

lemmas mention_defs = user_ids_of_def split_def isspace_def strip_chars_def parse_digits_def
  isdigit_def suffix_to_prefix

lemma parse_when_example_1:
  "parse_when now ''2025-09-07 23:00''
   = Some \<lparr>year = 2025, month = 9, day = 7, hour = 23, minute = 0, second = 0,
           microsecond = 0, tzinfo = None\<rparr>"
  by (simp add: parse_when_def DATE_FORMATS_def strip_examples strptime_example_1 str_in_Y)

text \<open>
  The input errors that \<open>new_article\<close> reports come before its first call that changes
  the server: outside a server and with a deadline that does not parse, the server is as
  it was. So is \<open>archive_channel\<close> outside a server.
\<close>

lemma new_article_outside_server:
  "new_article config now None title deadline writers = (MustBeInServer, None)"
  by (simp add: new_article_def)

lemma new_article_bad_deadline:
  "parse_when now deadline = None \<Longrightarrow>
   new_article config now (Some g) title deadline writers = (CouldntParseDeadline, Some g)"
  by (simp add: new_article_def)

lemma archive_channel_outside_server:
  "archive_channel config None channel here = (MustBeInServer, None)"
  by (simp add: archive_channel_def)

text \<open>
  Claim C7, at an input where the code departs from it. The archive command is called,
  with no channel argument, from a voice channel of a server that has neither category
  yet. \<open>archive_channel\<close> calls \<open>ensure_categories\<close> on line 280, before it tests on
  line 282 that the target is a text channel: the user is told to choose a text channel,
  and both categories have been created.
\<close>

theorem archive_channel_creates_categories_before_rejecting:
  "archive_channel default_config
     (Some \<lparr>g_id = 1, g_categories = [], g_roles = [], g_members = [], g_cached = [],
            g_channels = [\<lparr>ch_id = 5, ch_name = ''Newsroom voice'', ch_is_text = False,
                           ch_topic = None, ch_category = None, ch_overwrites = []\<rparr>],
            g_next_id = 100, g_can_manage = True, g_can_send = True\<rparr>)
     None (Some 5)
   = (ChooseTextChannel,
      Some \<lparr>g_id = 1,
            g_categories = [\<lparr>cat_id = 100, cat_name = ''Active Articles''\<rparr>,
                            \<lparr>cat_id = 101, cat_name = ''Archived Articles''\<rparr>],
            g_roles = [], g_members = [], g_cached = [],
            g_channels = [\<lparr>ch_id = 5, ch_name = ''Newsroom voice'', ch_is_text = False,
                           ch_topic = None, ch_category = None, ch_overwrites = []\<rparr>],
            g_next_id = 102, g_can_manage = True, g_can_send = True\<rparr>)"
  by (simp add: archive_channel_def platform_defs)

text \<open>
  Malformed tokens are dropped when the writers text is read: of the five tokens below
  only the two user mentions give an id.
\<close>

lemma user_ids_of_example:
  "user_ids_of (Some ''<@42> <@!999> bob <@&7> <@>'') = [42, 999]"
  by (simp add: mention_defs)

lemma new_article_drops_malformed_tokens:
  "fst (new_article default_config now
     (Some \<lparr>g_id = 1,
            g_categories = [\<lparr>cat_id = 10, cat_name = ''Active Articles''\<rparr>,
                            \<lparr>cat_id = 11, cat_name = ''Archived Articles''\<rparr>],
            g_roles = [\<lparr>role_id = 5, role_name = ''Editors''\<rparr>],
            g_members = [42], g_cached = [42], g_channels = [],
            g_next_id = 100, g_can_manage = True, g_can_send = True\<rparr>)
     ''Q3 Budget Review'' ''2025-09-07 23:00'' (Some ''<@42> bob <@&7> <@>''))
   = Created 100 [42]"
  by (simp add: new_article_def parse_when_example_1 platform_defs mention_defs)

text \<open>
  Claim C8, at an input where the code departs from it. The writers text holds the
  mention of a member (42) and a well-formed mention of an id that is no member of the
  server (999). The id is not in the cache, so line 230 fetches it, the fetch raises
  NotFound, and the handler on line 267 answers with the error: no channel is created,
  where the claim has the token dropped and the channel created for the other writer.
\<close>

theorem new_article_fails_on_unknown_member:
  "new_article default_config
     \<lparr>year = 2026, month = 11, day = 3, hour = 12, minute = 0, second = 0,
      microsecond = 0, tzinfo = None\<rparr>
     (Some \<lparr>g_id = 1,
            g_categories = [\<lparr>cat_id = 10, cat_name = ''Active Articles''\<rparr>,
                            \<lparr>cat_id = 11, cat_name = ''Archived Articles''\<rparr>],
            g_roles = [\<lparr>role_id = 5, role_name = ''Editors''\<rparr>],
            g_members = [42], g_cached = [42], g_channels = [],
            g_next_id = 100, g_can_manage = True, g_can_send = True\<rparr>)
     ''Q3 Budget Review'' ''2025-09-07 23:00'' (Some ''<@42> <@999>'')
   = (ErrorWhile NotFound,
      Some \<lparr>g_id = 1,
            g_categories = [\<lparr>cat_id = 10, cat_name = ''Active Articles''\<rparr>,
                            \<lparr>cat_id = 11, cat_name = ''Archived Articles''\<rparr>],
            g_roles = [\<lparr>role_id = 5, role_name = ''Editors''\<rparr>],
            g_members = [42], g_cached = [42], g_channels = [],
            g_next_id = 100, g_can_manage = True, g_can_send = True\<rparr>)"
  by (simp add: new_article_def parse_when_example_1 platform_defs mention_defs)

lemma extract_deadline_aware_example:
  "extract_deadline_from_topic (Some ''Article: Tz | [deadline: 2020-01-01T00:00:00+00:00]'')
   = Some \<lparr>year = 2020, month = 1, day = 1, hour = 0, minute = 0, second = 0,
           microsecond = 0, tzinfo = Some 0\<rparr>"
  by (simp add: codec_defs)

lemma extract_deadline_naive_example:
  "extract_deadline_from_topic
     (Some ''Article: Q3 Budget Review | [deadline: 2025-01-01T09:00:00]'')
   = Some \<lparr>year = 2025, month = 1, day = 1, hour = 9, minute = 0, second = 0,
           microsecond = 0, tzinfo = None\<rparr>"
  by (simp add: codec_defs)

text \<open>
  With one channel whose deadline has passed, the tick archives it: it moves to the
  archived category, the writer keeps reading and loses posting.
\<close>

lemma sweeper_archives_due_channel:
  "sweeper (default_config\<lparr>guild_id := Some 1\<rparr>)
       (Some \<lparr>g_id = 1,
          g_categories = [\<lparr>cat_id = 10, cat_name = ''Active Articles''\<rparr>,
                          \<lparr>cat_id = 11, cat_name = ''Archived Articles''\<rparr>],
          g_roles = [\<lparr>role_id = 5, role_name = ''Editors''\<rparr>],
          g_members = [42], g_cached = [42],
          g_channels =
            [\<lparr>ch_id = 21, ch_name = ''q3-budget-review'', ch_is_text = True,
              ch_topic = Some ''Article: Q3 Budget Review | [deadline: 2025-01-01T09:00:00]'',
              ch_category = Some 10,
              ch_overwrites =
                [(Member 42, \<lparr>view_channel = Some True, send_messages = Some True,
                               read_message_history = Some True, manage_messages = None\<rparr>)]\<rparr>],
          g_next_id = 100, g_can_manage = True, g_can_send = True\<rparr>)
       \<lparr>year = 2026, month = 11, day = 3, hour = 12, minute = 0, second = 0,
        microsecond = 0, tzinfo = None\<rparr>
     = (None,
        Some \<lparr>g_id = 1,
          g_categories = [\<lparr>cat_id = 10, cat_name = ''Active Articles''\<rparr>,
                          \<lparr>cat_id = 11, cat_name = ''Archived Articles''\<rparr>],
          g_roles = [\<lparr>role_id = 5, role_name = ''Editors''\<rparr>],
          g_members = [42], g_cached = [42],
          g_channels =
            [\<lparr>ch_id = 21, ch_name = ''q3-budget-review'', ch_is_text = True,
              ch_topic = Some ''Article: Q3 Budget Review | [deadline: 2025-01-01T09:00:00]'',
              ch_category = Some 11,
              ch_overwrites =
                [(Member 42, \<lparr>view_channel = Some True, send_messages = Some False,
                               read_message_history = Some True, manage_messages = None\<rparr>),
                 (Role 1, \<lparr>view_channel = Some True, send_messages = Some False,
                               read_message_history = Some True, manage_messages = None\<rparr>)]\<rparr>],
          g_next_id = 100, g_can_manage = True, g_can_send = True\<rparr>)"
  by (simp add: extract_deadline_naive_example sweeper_def platform_defs datetime_lt_def
        sweeper_overwrites_def)

lemma datetime_lt_naive:
  "tzinfo a = None \<Longrightarrow> tzinfo b = None \<Longrightarrow> \<exists>past. datetime_lt a b = Inr past"
  by (simp add: datetime_lt_def)

lemma same_id_same_channel:
  "distinct (map ch_id cs) \<Longrightarrow> c \<in> set cs \<Longrightarrow> c' \<in> set cs \<Longrightarrow> ch_id c = ch_id c' \<Longrightarrow> c = c'"
  by (auto simp: distinct_map dest: inj_onD)

text \<open>
  What the sweep does when nothing raises: the platform accepts the calls and every
  deadline that decodes is naive, as the deadlines the bot writes are. Then the loop ends
  without an exception, the channels of its list whose deadline is strictly earlier than
  \<open>now\<close> are archived, and every other channel of the server is as it was.
\<close>

lemma sweep_loop_naive:
  assumes "g_can_manage g" "g_can_send g" "tzinfo now = None"
    and "\<forall>ch \<in> set chs. \<forall>dl. extract_deadline_from_topic (ch_topic ch) = Some dl \<longrightarrow> tzinfo dl = None"
    and "distinct (map ch_id (g_channels g))" "set chs \<subseteq> set (g_channels g)" "distinct chs"
  shows "sweep_loop archived_cat editors_role now chs g =
     (None, g\<lparr>g_channels :=
        map (\<lambda>c. if c \<in> set chs
                    \<and> (\<exists>dl. extract_deadline_from_topic (ch_topic c) = Some dl
                            \<and> datetime_lt dl now = Inr True)
                 then c\<lparr>ch_category := Some (cat_id archived_cat),
                        ch_overwrites := sweeper_overwrites editors_role (g_id g) (ch_overwrites c)\<rparr>
                 else c) (g_channels g)\<rparr>)"
  using assms
proof (induction chs arbitrary: g)
  case Nil
  then show ?case by simp
next
  case (Cons ch chs)
  let ?due = "\<lambda>c. \<exists>dl. extract_deadline_from_topic (ch_topic c) = Some dl
                            \<and> datetime_lt dl now = Inr True"
  let ?arch = "\<lambda>g c. c\<lparr>ch_category := Some (cat_id archived_cat),
                        ch_overwrites := sweeper_overwrites editors_role (g_id g) (ch_overwrites c)\<rparr>"
  have naive: "\<forall>c \<in> set chs. \<forall>dl. extract_deadline_from_topic (ch_topic c) = Some dl \<longrightarrow> tzinfo dl = None"
    using Cons.prems(4) by simp
  have sub: "set chs \<subseteq> set (g_channels g)" and dist: "distinct chs" and notin: "ch \<notin> set chs"
    and chin: "ch \<in> set (g_channels g)"
    using Cons.prems(6,7) by simp_all
  have ih: "sweep_loop archived_cat editors_role now chs g =
     (None, g\<lparr>g_channels := map (\<lambda>c. if c \<in> set chs \<and> ?due c then ?arch g c else c) (g_channels g)\<rparr>)"
    using Cons.prems(1,2,3) naive Cons.prems(5) sub dist by (rule Cons.IH)
  show ?case
  proof (cases "?due ch")
    case False
    have skip: "sweep_loop archived_cat editors_role now (ch # chs) g
        = sweep_loop archived_cat editors_role now chs g"
    proof (cases "extract_deadline_from_topic (ch_topic ch)")
      case None
      then show ?thesis by simp
    next
      case (Some dl)
      then have "tzinfo dl = None" using Cons.prems(4) by simp
      then obtain past where p: "datetime_lt dl now = Inr past"
        using datetime_lt_naive[OF _ Cons.prems(3)] by blast
      then have "\<not> past" using False Some by auto
      then show ?thesis using Some p by simp
    qed
    have "map (\<lambda>c. if c \<in> set (ch # chs) \<and> ?due c then ?arch g c else c) (g_channels g)
        = map (\<lambda>c. if c \<in> set chs \<and> ?due c then ?arch g c else c) (g_channels g)"
      using False by (intro map_cong) auto
    then show ?thesis unfolding skip ih by simp
  next
    case True
    then obtain dl where dl: "extract_deadline_from_topic (ch_topic ch) = Some dl"
      and lt: "datetime_lt dl now = Inr True" by blast
    let ?E = "\<lambda>c. if ch_id c = ch_id ch then ?arch g ch else c"
    define g2 where "g2 = g\<lparr>g_channels := map ?E (g_channels g)\<rparr>"
    have twice: "(\<lambda>x. if ch_id (if ch_id x = ch_id ch
                               then ch\<lparr>ch_category := Some (cat_id archived_cat)\<rparr> else x)
                       = ch_id ch
                    then ?arch g ch
                    else if ch_id x = ch_id ch
                         then ch\<lparr>ch_category := Some (cat_id archived_cat)\<rparr> else x) = ?E"
      by (auto simp: fun_eq_iff)
    have step: "sweep_loop archived_cat editors_role now (ch # chs) g
        = sweep_loop archived_cat editors_role now chs g2"
      using dl lt Cons.prems(1,2)
      by (simp add: send_message_def edit_channel_def g2_def o_def twice)
    have ids: "map ch_id (g_channels g2) = map ch_id (g_channels g)"
      by (simp add: g2_def o_def cong: map_cong)
    have sub2: "set chs \<subseteq> set (g_channels g2)"
    proof
      fix c assume c: "c \<in> set chs"
      then have cg: "c \<in> set (g_channels g)" using sub by blast
      have "c \<noteq> ch" using c notin by blast
      then have "ch_id c \<noteq> ch_id ch"
        using same_id_same_channel[OF Cons.prems(5) cg chin] by blast
      then have "?E c = c" by simp
      then show "c \<in> set (g_channels g2)" using cg unfolding g2_def by force
    qed
    have ih2: "sweep_loop archived_cat editors_role now chs g2 =
       (None, g2\<lparr>g_channels := map (\<lambda>c. if c \<in> set chs \<and> ?due c then ?arch g2 c else c) (g_channels g2)\<rparr>)"
    proof (rule Cons.IH)
      show "g_can_manage g2" "g_can_send g2" using Cons.prems(1,2) by (simp_all add: g2_def)
      show "tzinfo now = None" by (rule Cons.prems(3))
      show "\<forall>c \<in> set chs. \<forall>dl. extract_deadline_from_topic (ch_topic c) = Some dl \<longrightarrow> tzinfo dl = None"
        by (rule naive)
      show "distinct (map ch_id (g_channels g2))" using Cons.prems(5) by (simp only: ids)
      show "set chs \<subseteq> set (g_channels g2)" by (rule sub2)
      show "distinct chs" by (rule dist)
    qed
    have arch_notin: "?arch g ch \<notin> set chs"
    proof
      assume a: "?arch g ch \<in> set chs"
      then have "?arch g ch \<in> set (g_channels g)" using sub by blast
      moreover have "ch_id (?arch g ch) = ch_id ch" by simp
      ultimately have "?arch g ch = ch"
        using same_id_same_channel[OF Cons.prems(5) _ chin] by blast
      then show False using a notin by simp
    qed
    have "map (\<lambda>c. if c \<in> set chs \<and> ?due c then ?arch g2 c else c) (g_channels g2)
        = map (\<lambda>c. if c \<in> set (ch # chs) \<and> ?due c then ?arch g c else c) (g_channels g)"
    proof -
      have "(if ?E c \<in> set chs \<and> ?due (?E c) then ?arch g2 (?E c) else ?E c)
          = (if c \<in> set (ch # chs) \<and> ?due c then ?arch g c else c)"
        if cg: "c \<in> set (g_channels g)" for c
      proof (cases "ch_id c = ch_id ch")
        case True
        then have "c = ch" using same_id_same_channel[OF Cons.prems(5) cg chin] by blast
        then show ?thesis using arch_notin \<open>?due ch\<close> by simp
      next
        case False
        then have "c \<noteq> ch" by blast
        then show ?thesis using False by (auto simp: g2_def)
      qed
      then show ?thesis unfolding g2_def by (simp add: o_def cong: map_cong)
    qed
    then show ?thesis unfolding step ih2 by (simp add: g2_def)
  qed
qed

text \<open>
  The same for the whole tick, in a server that has both categories: exactly the text
  channels of the active category with a deadline strictly earlier than \<open>now\<close> are
  archived.
\<close>

lemma sweeper_naive:
  assumes "guild_id config \<noteq> None"
    and "find (\<lambda>c. cat_name c = active_category_name config) (g_categories g) = Some active_cat"
    and "find (\<lambda>c. cat_name c = archived_category_name config) (g_categories g) = Some archived_cat"
    and "g_can_manage g" "g_can_send g" "tzinfo now = None"
    and "\<forall>ch \<in> set (g_channels g). \<forall>dl.
           extract_deadline_from_topic (ch_topic ch) = Some dl \<longrightarrow> tzinfo dl = None"
    and "distinct (map ch_id (g_channels g))"
  shows "sweeper config (Some g) now =
     (None, Some (g\<lparr>g_channels :=
        map (\<lambda>c. if ch_is_text c \<and> ch_category c = Some (cat_id active_cat)
                    \<and> (\<exists>dl. extract_deadline_from_topic (ch_topic c) = Some dl
                            \<and> datetime_lt dl now = Inr True)
                 then c\<lparr>ch_category := Some (cat_id archived_cat),
                        ch_overwrites :=
                          sweeper_overwrites
                            (find (\<lambda>r. role_name r = editors_role_name config) (g_roles g))
                            (g_id g) (ch_overwrites c)\<rparr>
                 else c) (g_channels g)\<rparr>))"
proof -
  let ?P = "\<lambda>c. ch_is_text c \<and> ch_category c = Some (cat_id active_cat)"
  let ?chs = "filter ?P (g_channels g)"
  let ?ed = "find (\<lambda>r. role_name r = editors_role_name config) (g_roles g)"
  have ec: "ensure_categories config g = Inr (active_cat, archived_cat, g)"
    using assms(2,3) by (simp add: ensure_categories_def)
  have d: "distinct ?chs"
    using assms(8) by (simp add: distinct_map)
  have n: "\<forall>ch \<in> set ?chs. \<forall>dl.
           extract_deadline_from_topic (ch_topic ch) = Some dl \<longrightarrow> tzinfo dl = None"
    using assms(7) by auto
  have loop: "sweep_loop archived_cat ?ed now ?chs g =
     (None, g\<lparr>g_channels :=
        map (\<lambda>c. if c \<in> set ?chs
                    \<and> (\<exists>dl. extract_deadline_from_topic (ch_topic c) = Some dl
                            \<and> datetime_lt dl now = Inr True)
                 then c\<lparr>ch_category := Some (cat_id archived_cat),
                        ch_overwrites := sweeper_overwrites ?ed (g_id g) (ch_overwrites c)\<rparr>
                 else c) (g_channels g)\<rparr>)"
    using assms(4,5,6) n assms(8) by (rule sweep_loop_naive) (simp_all add: d)
  have m: "map (\<lambda>c. if c \<in> set ?chs
                    \<and> (\<exists>dl. extract_deadline_from_topic (ch_topic c) = Some dl
                            \<and> datetime_lt dl now = Inr True)
                 then c\<lparr>ch_category := Some (cat_id archived_cat),
                        ch_overwrites := sweeper_overwrites ?ed (g_id g) (ch_overwrites c)\<rparr>
                 else c) (g_channels g)
         = map (\<lambda>c. if ?P c
                    \<and> (\<exists>dl. extract_deadline_from_topic (ch_topic c) = Some dl
                            \<and> datetime_lt dl now = Inr True)
                 then c\<lparr>ch_category := Some (cat_id archived_cat),
                        ch_overwrites := sweeper_overwrites ?ed (g_id g) (ch_overwrites c)\<rparr>
                 else c) (g_channels g)"
    by (intro map_cong) auto
  show ?thesis
    using assms(1) by (auto simp: sweeper_def ec loop m Let_def)
qed

text \<open>
  Claim C3, at an input where the code departs from it. The active category holds two
  text channels. The topic of the first carries a deadline with a UTC offset, which
  \<open>fromisoformat\<close> reads as an aware value; the topic of the second is one the bot wrote,
  with a naive deadline that is strictly earlier than \<open>now\<close>. On line 343 the comparison
  of the aware deadline with the naive \<open>now\<close> raises TypeError, outside the \<open>try\<close> block
  that starts on line 344: the exception leaves the task, and the second channel, which
  the claim has archived, is left as it was.
\<close>

theorem sweeper_stops_at_aware_deadline:
  "extract_deadline_from_topic
     (Some ''Article: Q3 Budget Review | [deadline: 2025-01-01T09:00:00]'')
   = Some \<lparr>year = 2025, month = 1, day = 1, hour = 9, minute = 0, second = 0,
           microsecond = 0, tzinfo = None\<rparr>
   \<and> datetime_lt
        \<lparr>year = 2025, month = 1, day = 1, hour = 9, minute = 0, second = 0,
         microsecond = 0, tzinfo = None\<rparr>
        \<lparr>year = 2026, month = 11, day = 3, hour = 12, minute = 0, second = 0,
         microsecond = 0, tzinfo = None\<rparr> = Inr True
   \<and> sweeper (default_config\<lparr>guild_id := Some 1\<rparr>)
       (Some \<lparr>g_id = 1,
          g_categories = [\<lparr>cat_id = 10, cat_name = ''Active Articles''\<rparr>,
                          \<lparr>cat_id = 11, cat_name = ''Archived Articles''\<rparr>],
          g_roles = [\<lparr>role_id = 5, role_name = ''Editors''\<rparr>],
          g_members = [42], g_cached = [42],
          g_channels =
            [\<lparr>ch_id = 20, ch_name = ''tz'', ch_is_text = True,
              ch_topic = Some ''Article: Tz | [deadline: 2020-01-01T00:00:00+00:00]'',
              ch_category = Some 10, ch_overwrites = []\<rparr>,
             \<lparr>ch_id = 21, ch_name = ''q3-budget-review'', ch_is_text = True,
              ch_topic = Some ''Article: Q3 Budget Review | [deadline: 2025-01-01T09:00:00]'',
              ch_category = Some 10,
              ch_overwrites =
                [(Member 42, \<lparr>view_channel = Some True, send_messages = Some True,
                               read_message_history = Some True, manage_messages = None\<rparr>)]\<rparr>],
          g_next_id = 100, g_can_manage = True, g_can_send = True\<rparr>)
       \<lparr>year = 2026, month = 11, day = 3, hour = 12, minute = 0, second = 0,
        microsecond = 0, tzinfo = None\<rparr>
     = (Some TypeError,
        Some \<lparr>g_id = 1,
          g_categories = [\<lparr>cat_id = 10, cat_name = ''Active Articles''\<rparr>,
                          \<lparr>cat_id = 11, cat_name = ''Archived Articles''\<rparr>],
          g_roles = [\<lparr>role_id = 5, role_name = ''Editors''\<rparr>],
          g_members = [42], g_cached = [42],
          g_channels =
            [\<lparr>ch_id = 20, ch_name = ''tz'', ch_is_text = True,
              ch_topic = Some ''Article: Tz | [deadline: 2020-01-01T00:00:00+00:00]'',
              ch_category = Some 10, ch_overwrites = []\<rparr>,
             \<lparr>ch_id = 21, ch_name = ''q3-budget-review'', ch_is_text = True,
              ch_topic = Some ''Article: Q3 Budget Review | [deadline: 2025-01-01T09:00:00]'',
              ch_category = Some 10,
              ch_overwrites =
                [(Member 42, \<lparr>view_channel = Some True, send_messages = Some True,
                               read_message_history = Some True, manage_messages = None\<rparr>)]\<rparr>],
          g_next_id = 100, g_can_manage = True, g_can_send = True\<rparr>)"
  by (simp add: extract_deadline_aware_example extract_deadline_naive_example sweeper_def
        platform_defs datetime_lt_def)

end
